theory Spec2Isabelle
  imports Main "HOL-Library.Sublist"
begin

section \<open>Text primitives\<close>

text \<open>
  Python strings are modelled as lists of characters. A character stands for a code
  point below 256; text with other code points is outside this model. The three
  built-ins that depend on the character class are \<open>str.lower\<close>, \<open>str.split()\<close> /
  \<open>str.strip()\<close> and the regular-expression class \<open>\s\<close>; the last three agree on
  what a whitespace character is.
\<close>

definition isspace :: "char \<Rightarrow> bool" where
  "isspace c = (let n = (of_char c :: nat) in
     (9 \<le> n \<and> n \<le> 13) \<or> (28 \<le> n \<and> n \<le> 32) \<or> n = 133 \<or> n = 160)"

definition lower_char :: "char \<Rightarrow> char" where
  "lower_char c = (let n = (of_char c :: nat) in
     if (65 \<le> n \<and> n \<le> 90) \<or> (192 \<le> n \<and> n \<le> 222 \<and> n \<noteq> 215)
     then char_of (n + 32) else c)"

definition lower :: "string \<Rightarrow> string" where
  "lower s = map lower_char s"

text \<open>\<open>a in b\<close> on strings: \<open>a\<close> occurs in \<open>b\<close> as a contiguous block.\<close>

fun str_in :: "string \<Rightarrow> string \<Rightarrow> bool" where
  "str_in a [] = (a = [])"
| "str_in a (c # cs) = (prefix a (c # cs) \<or> str_in a cs)"

text \<open>\<open>s.startswith(p)\<close> and \<open>s.endswith(p)\<close>.\<close>

definition startswith :: "string \<Rightarrow> string \<Rightarrow> bool" where
  "startswith s p = prefix p s"

definition endswith :: "string \<Rightarrow> string \<Rightarrow> bool" where
  "endswith s p = suffix p s"

text \<open>
  \<open>s.split()\<close> without a separator: the maximal runs of non-whitespace characters,
  in order; no empty string is produced. The first argument is the word being read.
\<close>

fun split_run :: "string \<Rightarrow> string \<Rightarrow> string list" where
  "split_run cur [] = (if cur = [] then [] else [cur])"
| "split_run cur (c # cs) =
     (if isspace c then (if cur = [] then split_run [] cs else cur # split_run [] cs)
      else split_run (cur @ [c]) cs)"

definition split_ws :: "string \<Rightarrow> string list" where
  "split_ws s = split_run [] s"

text \<open>
  \<open>s.split(sep)\<close> with a one-character separator: every occurrence of the separator
  cuts, empty pieces are kept, and the result is never empty.
\<close>

fun split_at :: "char \<Rightarrow> string \<Rightarrow> string \<Rightarrow> string list" where
  "split_at sep cur [] = [cur]"
| "split_at sep cur (c # cs) =
     (if c = sep then cur # split_at sep [] cs else split_at sep (cur @ [c]) cs)"

definition split_on :: "char \<Rightarrow> string \<Rightarrow> string list" where
  "split_on sep s = split_at sep [] s"

text \<open>
  \<open>re.sub(r"\s+", " ", s)\<close>: every maximal run of whitespace becomes one space.
  The flag says whether the previous character belonged to a run.
\<close>

fun sub_ws :: "bool \<Rightarrow> string \<Rightarrow> string" where
  "sub_ws in_run [] = []"
| "sub_ws in_run (c # cs) =
     (if isspace c then (if in_run then sub_ws True cs else CHR '' '' # sub_ws True cs)
      else c # sub_ws False cs)"

definition strip :: "string \<Rightarrow> string" where
  "strip s = rev (dropWhile isspace (rev (dropWhile isspace s)))"

text \<open>
  \<open>re.split(pattern, s)\<close> for a pattern \<open>[...]+\<close> over a character class \<open>P\<close>: the
  string is cut at every maximal run of class characters; a run at the start or at the
  end leaves an empty string there.
\<close>

fun re_split_run :: "(char \<Rightarrow> bool) \<Rightarrow> bool \<Rightarrow> string \<Rightarrow> string \<Rightarrow> string list" where
  "re_split_run P in_run cur [] = [cur]"
| "re_split_run P in_run cur (c # cs) =
     (if P c then (if in_run then re_split_run P True cur cs
                   else cur # re_split_run P True [] cs)
      else re_split_run P False (cur @ [c]) cs)"

definition re_split :: "(char \<Rightarrow> bool) \<Rightarrow> string \<Rightarrow> string list" where
  "re_split P s = re_split_run P False [] s"

section \<open>Text normaliser\<close>

definition normalize_whitespace :: "string \<Rightarrow> string" where
  "normalize_whitespace s = strip (sub_ws False s)"

definition first_name_from :: "string \<Rightarrow> string" where
  "first_name_from name =
     (let name' = normalize_whitespace name
      in if name' \<noteq> [] then hd (split_on CHR '' '' name') else [])"

definition tokenize_location :: "string \<Rightarrow> string list" where
  "tokenize_location loc =
     (let loc' = normalize_whitespace loc
      in if loc' = [] then []
         else filter (\<lambda>t. length t \<ge> 2) (re_split (\<lambda>c. isspace c \<or> c = CHR '','') loc'))"

definition tokenize_skill :: "string \<Rightarrow> string list" where
  "tokenize_skill skill =
     (let s = normalize_whitespace skill
      in if s = [] then [] else filter (\<lambda>t. t \<noteq> []) (re_split isspace s))"

section \<open>Candidate scorer and selector\<close>

text \<open>
  A candidate is the dictionary \<open>{"url", "title", "snippet"}\<close> built by the extractor;
  a missing or empty entry reads as the empty string.
\<close>

record candidate =
  url :: string
  title :: string
  snippet :: string

text \<open>The text the scorer searches: \<open>f"{title} {snippet}"\<close>, both lower-cased.\<close>

definition combined_text :: "candidate \<Rightarrow> string" where
  "combined_text cand = lower (title cand) @ '' '' @ lower (snippet cand)"

text \<open>\<open>sum(1 for part in name_parts if len(part) > 1 and part in combined_text)\<close>\<close>

definition matching_parts :: "string list \<Rightarrow> string \<Rightarrow> nat" where
  "matching_parts name_parts text =
     length (filter (\<lambda>part. length part > 1 \<and> str_in part text) name_parts)"

text \<open>The bonus for further parts of the name, in \<open>find_linkedins.py\<close>.\<close>

definition name_bonus :: "string \<Rightarrow> string \<Rightarrow> int" where
  "name_bonus full_name_lower text =
     (let name_parts = split_ws full_name_lower
      in if length name_parts > 1 then
           (if matching_parts name_parts text \<ge> 2 then 3
            else if matching_parts name_parts text = 1 \<and> length (name_parts ! 1) > 2 then 1
            else 0)
         else 0)"

text \<open>The same bonus in \<open>find_linkedins_cse.py\<close>.\<close>

definition name_bonus_cse :: "string \<Rightarrow> string \<Rightarrow> int" where
  "name_bonus_cse full_name_lower text =
     (let name_parts = split_ws full_name_lower
      in if length name_parts > 1 then
           (if matching_parts name_parts text \<ge> 2 then 4
            else if matching_parts name_parts text = 1 \<and> length (name_parts ! 1) > 2 then 1
            else 0)
         else 0)"

definition location_bonus :: "string list \<Rightarrow> string \<Rightarrow> int" where
  "location_bonus loc_tokens text =
     (let location_matches = int (length (filter (\<lambda>t. str_in (lower t) text) loc_tokens))
      in if location_matches > 0 then min (location_matches * 2) 4 else 0)"

definition context_bonus :: "string \<Rightarrow> int" where
  "context_bonus text =
     (if list_ex (\<lambda>k. str_in k text)
           [''freelancer'', ''upwork'', ''self employed'', ''self-employed'', ''consultant'']
      then 2 else 0)"

definition context_bonus_cse :: "string \<Rightarrow> int" where
  "context_bonus_cse text =
     (if list_ex (\<lambda>k. str_in k text)
           [''freelancer'', ''upwork'', ''consultant'', ''self employed'']
      then 2 else 0)"

text \<open>\<open>any(part in url for part in full_name_lower.split() if len(part) > 2)\<close>\<close>

definition part_in_url :: "string \<Rightarrow> string \<Rightarrow> bool" where
  "part_in_url full_name_lower u =
     list_ex (\<lambda>part. str_in part u) (filter (\<lambda>part. length part > 2) (split_ws full_name_lower))"

definition url_bonus :: "string \<Rightarrow> string \<Rightarrow> string \<Rightarrow> int" where
  "url_bonus fn full_name_lower u =
     (if startswith u (''https://www.linkedin.com/in/'' @ fn)
         \<or> startswith u (''https://linkedin.com/in/'' @ fn) then 2
      else if part_in_url full_name_lower u then 1
      else 0)"

definition url_bonus_cse :: "string \<Rightarrow> string \<Rightarrow> string \<Rightarrow> int" where
  "url_bonus_cse fn full_name_lower u =
     (if part_in_url full_name_lower u then 2
      else if startswith u (''https://www.linkedin.com/in/'' @ fn) then 1
      else 0)"

text \<open>\<open>if tokens and any(t.lower() in combined_text for t in tokens): score += 1\<close>\<close>

definition token_bonus :: "string list \<Rightarrow> string \<Rightarrow> int" where
  "token_bonus tokens text =
     (if tokens \<noteq> [] \<and> list_ex (\<lambda>t. str_in (lower t) text) tokens then 1 else 0)"

text \<open>
  The body of the loop of \<open>pick_candidate\<close> up to the comparison with the best score:
  \<open>None\<close> is the \<open>continue\<close> of a candidate whose title lacks the first name, \<open>Some\<close>
  carries the score of a candidate that is scored.
\<close>

definition score_candidate ::
  "string \<Rightarrow> string \<Rightarrow> string list \<Rightarrow> string list \<Rightarrow> string list \<Rightarrow> candidate \<Rightarrow> int option" where
  "score_candidate full_name first_name loc_tokens skill_tokens role_tokens cand =
     (let fn = lower first_name;
          full_name_lower = lower full_name;
          text = combined_text cand
      in if str_in fn (lower (title cand)) then
           Some (3 + name_bonus full_name_lower text
                   + location_bonus loc_tokens text
                   + context_bonus text
                   + url_bonus fn full_name_lower (lower (url cand))
                   + token_bonus role_tokens text
                   + token_bonus skill_tokens text)
         else None)"

definition score_candidate_cse ::
  "string \<Rightarrow> string \<Rightarrow> string list \<Rightarrow> string list \<Rightarrow> string list \<Rightarrow> candidate \<Rightarrow> int option" where
  "score_candidate_cse full_name first_name loc_tokens skill_tokens role_tokens cand =
     (let fn = lower first_name;
          full_name_lower = lower full_name;
          text = combined_text cand
      in if str_in fn (lower (title cand)) then
           Some (3 + name_bonus_cse full_name_lower text
                   + location_bonus loc_tokens text
                   + context_bonus_cse text
                   + url_bonus_cse fn full_name_lower (lower (url cand))
                   + token_bonus role_tokens text
                   + token_bonus skill_tokens text)
         else None)"

text \<open>
  One iteration on the pair \<open>(best_candidate, best_score)\<close>: a skipped candidate
  leaves it alone, a scored one replaces it only with a strictly larger score.
\<close>

definition keep_best ::
  "(candidate \<Rightarrow> int option) \<Rightarrow> candidate option \<times> int \<Rightarrow> candidate \<Rightarrow> candidate option \<times> int" where
  "keep_best sc best cand =
     (case sc cand of
        None \<Rightarrow> best
      | Some score \<Rightarrow> if score > snd best then (Some cand, score) else best)"

text \<open>The loop from \<open>(None, 0)\<close> and the threshold of the \<open>return\<close>.\<close>

definition select_best :: "(candidate \<Rightarrow> int option) \<Rightarrow> candidate list \<Rightarrow> candidate option" where
  "select_best sc candidates =
     (let best = foldl (keep_best sc) (None, 0) candidates
      in if snd best \<ge> 5 then fst best else None)"

definition pick_candidate ::
  "string \<Rightarrow> string \<Rightarrow> string list \<Rightarrow> string list \<Rightarrow> candidate list \<Rightarrow> string list
     \<Rightarrow> candidate option" where
  "pick_candidate full_name first_name loc_tokens skill_tokens candidates role_tokens =
     select_best (score_candidate full_name first_name loc_tokens skill_tokens role_tokens)
       candidates"

definition pick_best_linkedin_candidate ::
  "string \<Rightarrow> string \<Rightarrow> string list \<Rightarrow> string list \<Rightarrow> candidate list \<Rightarrow> string list
     \<Rightarrow> candidate option" where
  "pick_best_linkedin_candidate full_name first_name loc_tokens skill_tokens candidates role_tokens =
     select_best (score_candidate_cse full_name first_name loc_tokens skill_tokens role_tokens)
       candidates"

section \<open>Query synthesiser\<close>

text \<open>\<open>f'"{s}"'\<close>: the string between two double quotes.\<close>

definition quote :: "string \<Rightarrow> string" where
  "quote s = CHR 0x22 # s @ [CHR 0x22]"

definition site :: string where
  "site = '' site:linkedin.com/in''"

text \<open>
  \<open>is_truncated\<close> as both files compute it from \<open>name.split()\<close>; the conjunction is
  evaluated left to right, so the second part is read only when there are two parts.
\<close>

definition is_truncated :: "string \<Rightarrow> bool" where
  "is_truncated name =
     (let name_parts = split_ws name
      in length name_parts = 2 \<and> length (name_parts ! 1) \<le> 2 \<and> endswith (name_parts ! 1) ''.'')"

text \<open>\<open>normalize_whitespace((skills or [None])[0] or "")\<close>; an absent list is the empty list.\<close>

definition top_skill_of :: "string list \<Rightarrow> string" where
  "top_skill_of skills = normalize_whitespace (case skills of [] \<Rightarrow> [] | s # _ \<Rightarrow> s)"

text \<open>
  The queries each block of \<open>build_queries\<close> appends, in the order of the appends.
  The block for truncated names (priority 1):
\<close>

definition truncated_stage :: "string \<Rightarrow> string \<Rightarrow> string \<Rightarrow> string list" where
  "truncated_stage first_only loc_q top_skill =
     (if loc_q \<noteq> [] then
        [quote first_only @ '' freelancer '' @ loc_q @ site,
         quote first_only @ '' '' @ loc_q @ site]
      else [])
     @ (if top_skill \<noteq> [] \<and> loc_q \<noteq> [] then
          [quote first_only @ '' '' @ top_skill @ '' '' @ loc_q @ site]
        else [])
     @ [first_only @ '' freelancer '' @ loc_q @ site]"

text \<open>The same block in \<open>build_cse_queries\<close>: the unquoted query comes third.\<close>

definition truncated_stage_cse :: "string \<Rightarrow> string \<Rightarrow> string \<Rightarrow> string list" where
  "truncated_stage_cse first_only loc_q top_skill =
     (if loc_q \<noteq> [] then
        [quote first_only @ '' freelancer '' @ loc_q @ site,
         quote first_only @ '' '' @ loc_q @ site]
      else [])
     @ [first_only @ '' freelancer '' @ loc_q @ site]
     @ (if top_skill \<noteq> [] \<and> loc_q \<noteq> [] then
          [quote first_only @ '' '' @ top_skill @ '' '' @ loc_q @ site]
        else [])"

text \<open>The block for the full name with a location (priority 2).\<close>

definition full_name_stage :: "string \<Rightarrow> string \<Rightarrow> string \<Rightarrow> string \<Rightarrow> string list" where
  "full_name_stage name_q loc_q role_q top_skill =
     [name_q @ '' freelancer '' @ loc_q @ site, name_q @ '' '' @ loc_q @ site]
     @ (if role_q \<noteq> [] then [name_q @ '' '' @ role_q @ '' '' @ loc_q @ site] else [])
     @ (if top_skill \<noteq> [] then [name_q @ '' '' @ top_skill @ '' '' @ loc_q @ site] else [])"

text \<open>The country fallback and the query on the name alone (priorities 3 and 4).\<close>

definition fallback_stage :: "string \<Rightarrow> string \<Rightarrow> string \<Rightarrow> string list" where
  "fallback_stage name_q loc_q country_q =
     (if country_q \<noteq> [] \<and> country_q \<noteq> loc_q then [name_q @ '' '' @ country_q @ site] else [])
     @ [name_q @ site]"

text \<open>
  The list \<open>queries\<close> as it stands before de-duplication. \<open>name_q\<close> is empty exactly
  when \<open>name\<close> is, \<open>first_q\<close> exactly when \<open>first_only\<close> is. The two files nest the
  tests on \<open>name_q\<close> differently and append the same strings.
  The parameter \<open>primary_category\<close> of \<open>build_queries\<close> is read nowhere in its body
  and is left out.
\<close>

definition assemble_queries ::
  "string \<Rightarrow> string \<Rightarrow> string list \<Rightarrow> string \<Rightarrow> string \<Rightarrow> string list" where
  "assemble_queries name location skills role country =
     (let name_q = (if name \<noteq> [] then quote (normalize_whitespace name) else []);
          loc_q = normalize_whitespace location;
          country_q = normalize_whitespace country;
          role_q = normalize_whitespace role;
          top_skill = top_skill_of skills;
          first_only = first_name_from name
      in (if is_truncated name \<and> first_only \<noteq> []
          then truncated_stage first_only loc_q top_skill else [])
         @ (if name_q \<noteq> [] \<and> loc_q \<noteq> []
            then full_name_stage name_q loc_q role_q top_skill else [])
         @ (if name_q \<noteq> [] then fallback_stage name_q loc_q country_q else []))"

definition assemble_cse_queries ::
  "string \<Rightarrow> string \<Rightarrow> string list \<Rightarrow> string \<Rightarrow> string \<Rightarrow> string list" where
  "assemble_cse_queries name location skills role country =
     (let name_q = (if name \<noteq> [] then quote (normalize_whitespace name) else []);
          loc_q = normalize_whitespace location;
          country_q = normalize_whitespace country;
          role_q = normalize_whitespace role;
          top_skill = top_skill_of skills;
          first_only = first_name_from name
      in (if is_truncated name \<and> first_only \<noteq> []
          then truncated_stage_cse first_only loc_q top_skill else [])
         @ (if name_q \<noteq> [] \<and> loc_q \<noteq> []
            then full_name_stage name_q loc_q role_q top_skill else [])
         @ (if name_q \<noteq> [] then fallback_stage name_q loc_q country_q else []))"

text \<open>The de-duplication loop with its set \<open>seen\<close>.\<close>

fun dedup :: "string set \<Rightarrow> string list \<Rightarrow> string list" where
  "dedup seen [] = []"
| "dedup seen (q # qs) =
     (if q \<notin> seen then q # dedup (insert q seen) qs else dedup seen qs)"

definition build_queries ::
  "string \<Rightarrow> string \<Rightarrow> string list \<Rightarrow> string \<Rightarrow> string \<Rightarrow> string list" where
  "build_queries name location skills role country =
     take 8 (dedup {} (assemble_queries name location skills role country))"

definition build_cse_queries ::
  "string \<Rightarrow> string \<Rightarrow> string list \<Rightarrow> string \<Rightarrow> string \<Rightarrow> string list" where
  "build_cse_queries name location skills role country =
     take 6 (dedup {} (assemble_cse_queries name location skills role country))"

section \<open>Candidate extractor\<close>

text \<open>
  One result item of the provider's payload, after \<open>item.get(...) or ""\<close>: an absent
  field is the empty string.
\<close>

record item =
  link :: string
  item_title :: string
  item_snippet :: string

text \<open>\<open>link.lower().split("?")[0].split("#")[0]\<close>\<close>

definition clean_link :: "string \<Rightarrow> string" where
  "clean_link l = hd (split_on CHR ''#'' (hd (split_on CHR ''?'' (lower l))))"

definition profile_link :: "string \<Rightarrow> bool" where
  "profile_link l =
     (startswith l ''https://www.linkedin.com/in/'' \<or> startswith l ''https://linkedin.com/in/''
      \<or> startswith l ''https://www.linkedin.com/pub/'' \<or> startswith l ''https://linkedin.com/pub/'')"

definition profile_link_cse :: "string \<Rightarrow> bool" where
  "profile_link_cse l =
     (startswith l ''https://www.linkedin.com/in/'' \<or> startswith l ''https://linkedin.com/in/'')"

text \<open>The extraction loop; it stops at the fifth candidate.\<close>

fun extract_loop :: "(string \<Rightarrow> bool) \<Rightarrow> item list \<Rightarrow> candidate list \<Rightarrow> candidate list" where
  "extract_loop ok [] cands = cands"
| "extract_loop ok (it # its) cands =
     (let link_l = clean_link (link it)
      in if \<not> ok link_l then extract_loop ok its cands
         else (let cands' = cands @ [\<lparr>url = link_l, title = item_title it, snippet = item_snippet it\<rparr>]
               in if length cands' \<ge> 5 then cands' else extract_loop ok its cands'))"

definition extract_candidates :: "item list \<Rightarrow> candidate list" where
  "extract_candidates org = extract_loop profile_link org []"

definition extract_linkedin_candidates :: "item list \<Rightarrow> candidate list" where
  "extract_linkedin_candidates items = extract_loop profile_link_cse items []"

section \<open>Record processor\<close>

text \<open>
  The search provider is outside the program. A call either returns the list of result
  items or raises an exception, of which the program reads the message only. The
  provider is a function of the number of calls made before and of the query, so it may
  answer the same query differently on a retry.
\<close>

datatype response = Results "item list" | Failure string

type_synonym provider = "nat \<Rightarrow> string \<Rightarrow> response"

datatype status = Matched | Needs_review | Not_found | Error

text \<open>What the program does towards the outside, in order.\<close>

datatype event = Pause | Search string | Backoff nat

text \<open>
  The variables of one record: the four the output row is built from, the number of
  search calls made so far in the batch and the events of this record.
\<close>

record run =
  best_url :: string
  match_status :: status
  query_used :: string
  all_candidates :: "candidate list"
  calls :: nat
  log :: "event list"

text \<open>The values \<open>process_records\<close> derives from a record for the scorer.\<close>

record identity =
  id_name :: string
  id_first :: string
  id_loc :: "string list"
  id_skill :: "string list"
  id_role :: "string list"

text \<open>\<open>any(code in msg for code in ["429", "500", "502", "503", "504"])\<close>\<close>

definition retryable :: "string \<Rightarrow> bool" where
  "retryable msg = list_ex (\<lambda>code. str_in code msg) [''429'', ''500'', ''502'', ''503'', ''504'']"

text \<open>The statements of the \<open>try\<close> block after a call that returned.\<close>

definition accept_results :: "(candidate list \<Rightarrow> candidate option) \<Rightarrow> string \<Rightarrow> candidate list \<Rightarrow> run \<Rightarrow> run" where
  "accept_results pick q cands st =
     (let st' = (if all_candidates st = [] \<and> cands \<noteq> [] then st\<lparr>all_candidates := cands\<rparr> else st)
      in case pick cands of
           Some cand \<Rightarrow> st'\<lparr>best_url := url cand, match_status := Matched, query_used := q\<rparr>
         | None \<Rightarrow> st')"

text \<open>
  The \<open>while True\<close> loop of \<open>find_linkedins.py\<close> on one query. \<open>attempts\<close> and
  \<open>backoff\<close> are the loop's variables at its head; the back-off is in seconds, 5 at
  first, and a sleep lasts \<open>min(60.0, backoff)\<close>.
\<close>

function search_with_retries :: "provider \<Rightarrow> identity \<Rightarrow> string \<Rightarrow> nat \<Rightarrow> nat \<Rightarrow> run \<Rightarrow> run" where
  "search_with_retries prov idn q attempts backoff st =
     (let attempts' = attempts + 1;
          st' = st\<lparr>calls := calls st + 1, log := log st @ [Search q]\<rparr>
      in case prov (calls st) q of
           Results org \<Rightarrow>
             accept_results
               (\<lambda>cands. pick_candidate (id_name idn) (id_first idn) (id_loc idn) (id_skill idn)
                          cands (id_role idn))
               q (extract_candidates org) st'
         | Failure msg \<Rightarrow>
             if retryable msg \<and> attempts' < 3 then
               search_with_retries prov idn q attempts' (backoff * 2)
                 (st'\<lparr>log := log st' @ [Backoff (min 60 backoff)]\<rparr>)
             else st'\<lparr>match_status := Error, query_used := q\<rparr>)"
  by pat_completeness auto
termination
  by (relation "measure (\<lambda>(prov, idn, q, attempts, backoff, st). 3 - attempts)") auto

declare search_with_retries.simps [simp del]

text \<open>The body of the query loop of \<open>find_linkedins_cse.py\<close>: one call, no retry.\<close>

definition search_once :: "provider \<Rightarrow> identity \<Rightarrow> string \<Rightarrow> run \<Rightarrow> run" where
  "search_once prov idn q st =
     (let st' = st\<lparr>calls := calls st + 1, log := log st @ [Search q]\<rparr>
      in case prov (calls st) q of
           Results items \<Rightarrow>
             accept_results
               (\<lambda>cands. pick_best_linkedin_candidate (id_name idn) (id_first idn) (id_loc idn)
                          (id_skill idn) cands (id_role idn))
               q (extract_linkedin_candidates items) st'
         | Failure msg \<Rightarrow> st'\<lparr>match_status := Error, query_used := q\<rparr>)"

text \<open>
  The loop over the queries: the politeness sleep, the search, and the \<open>break\<close> once
  the status is \<open>matched\<close> or \<open>error\<close>. The first argument is the search of one query.
\<close>

fun run_queries :: "(string \<Rightarrow> run \<Rightarrow> run) \<Rightarrow> string list \<Rightarrow> run \<Rightarrow> run" where
  "run_queries search [] st = st"
| "run_queries search (q # qs) st =
     (let st' = search q (st\<lparr>log := log st @ [Pause]\<rparr>)
      in if match_status st' = Matched \<or> match_status st' = Error then st'
         else run_queries search qs st')"

text \<open>The statements after the loop, and the case of no query at all.\<close>

definition conclude :: "string list \<Rightarrow> run \<Rightarrow> run" where
  "conclude queries st =
     (if match_status st = Not_found \<and> all_candidates st \<noteq> [] then
        (let st' = st\<lparr>match_status := Needs_review\<rparr>
         in if query_used st' = [] \<and> queries \<noteq> [] then st'\<lparr>query_used := hd queries\<rparr> else st')
      else st)"

definition start_run :: "nat \<Rightarrow> run" where
  "start_run n = \<lparr>best_url = [], match_status = Not_found, query_used = [],
                  all_candidates = [], calls = n, log = []\<rparr>"

text \<open>
  An input record after the field look-ups at the head of the loop body: the name, the
  location, the role, the country and the list of skills, each already a string. The
  look-ups themselves, the locale hint \<open>gl\<close> and the checkpoint files are not modelled.
\<close>

record profile =
  p_name :: string
  p_location :: string
  p_role :: string
  p_country :: string
  p_skills :: "string list"

text \<open>\<open>skills[0]\<close> and \<open>skills[1]\<close>, the empty string where the list is too short.\<close>

definition skill_at :: "string list \<Rightarrow> nat \<Rightarrow> string" where
  "skill_at skills i = (if i < length skills then skills ! i else [])"

text \<open>One pass of the loop body of \<open>process_records\<close> in \<open>find_linkedins.py\<close>.\<close>

definition process_record :: "provider \<Rightarrow> nat \<Rightarrow> profile \<Rightarrow> run" where
  "process_record prov n r =
     (let queries = build_queries (p_name r) (p_location r) (p_skills r) (p_role r) (p_country r);
          idn = \<lparr>id_name = p_name r,
                 id_first = first_name_from (p_name r),
                 id_loc = tokenize_location (p_location r) @ tokenize_location (p_country r),
                 id_skill = tokenize_skill (skill_at (p_skills r) 0)
                            @ tokenize_skill (skill_at (p_skills r) 1),
                 id_role = tokenize_skill (p_role r)\<rparr>
      in if queries = [] then start_run n
         else conclude queries
                (run_queries (\<lambda>q. search_with_retries prov idn q 0 5) queries (start_run n)))"

text \<open>The same in \<open>find_linkedins_cse.py\<close>; the country adds no location token there.\<close>

definition process_record_cse :: "provider \<Rightarrow> nat \<Rightarrow> profile \<Rightarrow> run" where
  "process_record_cse prov n r =
     (let queries = build_cse_queries (p_name r) (p_location r) (p_skills r) (p_role r) (p_country r);
          idn = \<lparr>id_name = p_name r,
                 id_first = first_name_from (p_name r),
                 id_loc = tokenize_location (p_location r),
                 id_skill = tokenize_skill (skill_at (p_skills r) 0)
                            @ tokenize_skill (skill_at (p_skills r) 1),
                 id_role = tokenize_skill (p_role r)\<rparr>
      in if queries = [] then start_run n
         else conclude queries (run_queries (search_once prov idn) queries (start_run n)))"

text \<open>
  The batch: the records from \<open>start\<close> to \<open>min(len(records), end_idx)\<close>, one output
  row each, in order. The first argument is the processing of one record, given the
  number of calls made before it.
\<close>

fun process_loop :: "(nat \<Rightarrow> profile \<Rightarrow> run) \<Rightarrow> nat \<Rightarrow> profile list \<Rightarrow> run list \<Rightarrow> run list" where
  "process_loop one n [] out_rows = out_rows"
| "process_loop one n (r # rs) out_rows =
     (let out = one n r in process_loop one (calls out) rs (out_rows @ [out]))"

definition process_records :: "provider \<Rightarrow> profile list \<Rightarrow> nat \<Rightarrow> int option \<Rightarrow> run list" where
  "process_records prov records start limit =
     (let end_idx = (case limit of None \<Rightarrow> int (length records) | Some l \<Rightarrow> int start + l);
          stop = min (int (length records)) end_idx
      in process_loop (process_record prov) 0
           (take (nat (stop - int start)) (drop start records)) [])"

text \<open>\<open>counts[match_status]\<close> at the end of the batch.\<close>

definition count_status :: "status \<Rightarrow> run list \<Rightarrow> nat" where
  "count_status s out_rows = length (filter (\<lambda>out. match_status out = s) out_rows)"

section \<open>Notions the properties are stated with\<close>

text \<open>
  Index \<open>i\<close> holds the first candidate of \<open>cs\<close> with the largest score \<open>m\<close>, among the
  candidates that \<open>sc\<close> scores at all.
\<close>

definition first_max :: "(candidate \<Rightarrow> int option) \<Rightarrow> candidate list \<Rightarrow> nat \<Rightarrow> int \<Rightarrow> bool" where
  "first_max sc cs i m \<longleftrightarrow>
     i < length cs \<and> sc (cs ! i) = Some m
     \<and> (\<forall>j<length cs. \<forall>s. sc (cs ! j) = Some s \<longrightarrow> s \<le> m)
     \<and> (\<forall>j<i. sc (cs ! j) \<noteq> Some m)"

text \<open>\<open>" ".join(ws)\<close>: the words with one space between neighbours.\<close>

fun join_sp :: "string list \<Rightarrow> string" where
  "join_sp [] = []"
| "join_sp [w] = w"
| "join_sp (w # v # ws) = w @ CHR '' '' # join_sp (v # ws)"

text \<open>The right half of \<open>strip\<close>: the whitespace at the end is dropped.\<close>

definition rstrip :: "string \<Rightarrow> string" where
  "rstrip s = rev (dropWhile isspace (rev s))"

text \<open>
  In the list \<open>out\<close>, every entry that is one of \<open>T\<close> stands at a smaller index than
  every entry that is one of \<open>F\<close>.
\<close>

definition all_before :: "string list \<Rightarrow> string list \<Rightarrow> string list \<Rightarrow> bool" where
  "all_before T F out \<longleftrightarrow>
     (\<forall>i<length out. \<forall>j<length out. out ! i \<in> set T \<and> out ! j \<in> set F \<longrightarrow> i < j)"

section \<open>The selection loop\<close>

lemma keep_best_skip: "sc c = None \<Longrightarrow> keep_best sc b c = b"
  by (simp add: keep_best_def)

lemma foldl_keep_best_filter:
  "foldl (keep_best sc) b (filter (\<lambda>c. sc c \<noteq> None) cs) = foldl (keep_best sc) b cs"
  by (induction cs arbitrary: b) (auto simp: keep_best_skip)

lemma first_max_snoc_None:
  "sc x = None \<Longrightarrow> first_max sc cs i m \<Longrightarrow> first_max sc (cs @ [x]) i m"
  by (auto simp: first_max_def nth_append less_Suc_eq)

lemma first_max_snoc_le:
  "sc x = Some s \<Longrightarrow> s \<le> m \<Longrightarrow> first_max sc cs i m \<Longrightarrow> first_max sc (cs @ [x]) i m"
  by (auto simp: first_max_def nth_append less_Suc_eq)

lemma first_max_snoc_gt:
  "sc x = Some s \<Longrightarrow> m < s \<Longrightarrow> first_max sc cs i m \<Longrightarrow> first_max sc (cs @ [x]) (length cs) s"
  by (fastforce simp: first_max_def nth_append less_Suc_eq)

lemma first_max_snoc_first:
  "sc x = Some s \<Longrightarrow> \<forall>c\<in>set cs. sc c = None \<Longrightarrow> first_max sc (cs @ [x]) (length cs) s"
  by (auto simp: first_max_def nth_append less_Suc_eq)

lemma foldl_keep_best:
  assumes pos: "\<And>c s. sc c = Some s \<Longrightarrow> 0 < s"
  shows "(foldl (keep_best sc) (None, 0) cs = (None, 0) \<and> (\<forall>c\<in>set cs. sc c = None))
       \<or> (\<exists>i m. foldl (keep_best sc) (None, 0) cs = (Some (cs ! i), m) \<and> first_max sc cs i m)"
proof (induction cs rule: rev_induct)
  case Nil
  show ?case by simp
next
  case (snoc x cs)
  show ?case
  proof (cases "sc x")
    case None
    with snoc show ?thesis
      by (auto simp: keep_best_skip nth_append first_max_def less_Suc_eq)
  next
    case (Some s)
    from snoc show ?thesis
    proof
      assume a: "foldl (keep_best sc) (None, 0) cs = (None, 0) \<and> (\<forall>c\<in>set cs. sc c = None)"
      have "0 < s" using Some pos by blast
      then have "foldl (keep_best sc) (None, 0) (cs @ [x]) = (Some ((cs @ [x]) ! length cs), s)"
        using a Some by (simp add: keep_best_def)
      moreover have "first_max sc (cs @ [x]) (length cs) s"
        using first_max_snoc_first Some a by blast
      ultimately show ?thesis by blast
    next
      assume "\<exists>i m. foldl (keep_best sc) (None, 0) cs = (Some (cs ! i), m) \<and> first_max sc cs i m"
      then obtain i m where f: "foldl (keep_best sc) (None, 0) cs = (Some (cs ! i), m)"
        and fm: "first_max sc cs i m" by blast
      have il: "i < length cs" using fm by (simp add: first_max_def)
      show ?thesis
      proof (cases "m < s")
        case True
        then have "foldl (keep_best sc) (None, 0) (cs @ [x]) = (Some ((cs @ [x]) ! length cs), s)"
          using f Some by (simp add: keep_best_def)
        moreover have "first_max sc (cs @ [x]) (length cs) s"
          using first_max_snoc_gt Some True fm by blast
        ultimately show ?thesis by blast
      next
        case False
        then have "foldl (keep_best sc) (None, 0) (cs @ [x]) = (Some ((cs @ [x]) ! i), m)"
          using f Some il by (simp add: keep_best_def nth_append)
        moreover have "first_max sc (cs @ [x]) i m"
          using first_max_snoc_le Some False fm by (metis not_less)
        ultimately show ?thesis by blast
      qed
    qed
  qed
qed

lemma first_max_unique:
  assumes "first_max sc cs i m" "first_max sc cs i' m'"
  shows "i = i' \<and> m = m'"
proof -
  have "m \<le> m'" "m' \<le> m" using assms by (auto simp: first_max_def)
  then have m: "m = m'" by simp
  have "\<not> i < i'" "\<not> i' < i" using assms m by (auto simp: first_max_def)
  then show ?thesis using m by simp
qed

lemma select_best_Some_iff:
  assumes pos: "\<And>c s. sc c = Some s \<Longrightarrow> 0 < s"
  shows "select_best sc cs = Some c \<longleftrightarrow> (\<exists>i m. first_max sc cs i m \<and> 5 \<le> m \<and> cs ! i = c)"
proof -
  from foldl_keep_best [of sc cs, OF pos] show ?thesis
  proof
    assume a: "foldl (keep_best sc) (None, 0) cs = (None, 0) \<and> (\<forall>c\<in>set cs. sc c = None)"
    then have "\<not> (\<exists>i m. first_max sc cs i m)"
      by (auto simp: first_max_def)
    then show ?thesis using a by (auto simp: select_best_def)
  next
    assume "\<exists>i m. foldl (keep_best sc) (None, 0) cs = (Some (cs ! i), m) \<and> first_max sc cs i m"
    then obtain i m where f: "foldl (keep_best sc) (None, 0) cs = (Some (cs ! i), m)"
      and fm: "first_max sc cs i m" by blast
    show ?thesis
    proof
      assume "select_best sc cs = Some c"
      then have "5 \<le> m \<and> cs ! i = c" using f by (auto simp: select_best_def split: if_splits)
      then show "\<exists>i m. first_max sc cs i m \<and> 5 \<le> m \<and> cs ! i = c" using fm by blast
    next
      assume "\<exists>i m. first_max sc cs i m \<and> 5 \<le> m \<and> cs ! i = c"
      then obtain i' m' where fm': "first_max sc cs i' m'" and g: "5 \<le> m'" "cs ! i' = c" by blast
      have "i = i' \<and> m = m'" using first_max_unique fm fm' by blast
      then show "select_best sc cs = Some c" using f g by (simp add: select_best_def)
    qed
  qed
qed

lemma select_best_None_iff:
  assumes pos: "\<And>c s. sc c = Some s \<Longrightarrow> 0 < s"
  shows "select_best sc cs = None \<longleftrightarrow> (\<forall>c\<in>set cs. \<forall>s. sc c = Some s \<longrightarrow> s < 5)"
proof -
  from foldl_keep_best [of sc cs, OF pos] show ?thesis
  proof
    assume a: "foldl (keep_best sc) (None, 0) cs = (None, 0) \<and> (\<forall>c\<in>set cs. sc c = None)"
    then show ?thesis by (auto simp: select_best_def)
  next
    assume "\<exists>i m. foldl (keep_best sc) (None, 0) cs = (Some (cs ! i), m) \<and> first_max sc cs i m"
    then obtain i m where f: "foldl (keep_best sc) (None, 0) cs = (Some (cs ! i), m)"
      and fm: "first_max sc cs i m" by blast
    have sel: "select_best sc cs = None \<longleftrightarrow> m < 5"
      using f by (auto simp: select_best_def)
    have il: "i < length cs" and si: "sc (cs ! i) = Some m"
      and mx: "\<forall>j<length cs. \<forall>s. sc (cs ! j) = Some s \<longrightarrow> s \<le> m"
      using fm by (auto simp: first_max_def)
    show ?thesis
    proof
      assume "select_best sc cs = None"
      then have "m < 5" using sel by simp
      then show "\<forall>c\<in>set cs. \<forall>s. sc c = Some s \<longrightarrow> s < 5"
        using mx by (fastforce simp: in_set_conv_nth)
    next
      assume "\<forall>c\<in>set cs. \<forall>s. sc c = Some s \<longrightarrow> s < 5"
      then have "m < 5" using il si nth_mem by blast
      then show "select_best sc cs = None" using sel by simp
    qed
  qed
qed

section \<open>The scores\<close>

lemma name_bonus_nonneg: "0 \<le> name_bonus n t"
  by (simp add: name_bonus_def Let_def)

lemma name_bonus_cse_nonneg: "0 \<le> name_bonus_cse n t"
  by (simp add: name_bonus_cse_def Let_def)

lemma location_bonus_nonneg: "0 \<le> location_bonus ts t"
  by (simp add: location_bonus_def Let_def)

lemma context_bonus_nonneg: "0 \<le> context_bonus t"
  by (simp add: context_bonus_def)

lemma context_bonus_cse_nonneg: "0 \<le> context_bonus_cse t"
  by (simp add: context_bonus_cse_def)

lemma url_bonus_nonneg: "0 \<le> url_bonus f n u"
  by (simp add: url_bonus_def)

lemma url_bonus_cse_nonneg: "0 \<le> url_bonus_cse f n u"
  by (simp add: url_bonus_cse_def)

lemma token_bonus_nonneg: "0 \<le> token_bonus ts t"
  by (simp add: token_bonus_def)

lemma score_candidate_Some:
  "score_candidate n f lt st rt c = Some s \<Longrightarrow> str_in (lower f) (lower (title c)) \<and> 3 \<le> s"
  using name_bonus_nonneg [of "lower n" "combined_text c"]
    location_bonus_nonneg [of lt "combined_text c"]
    context_bonus_nonneg [of "combined_text c"]
    url_bonus_nonneg [of "lower f" "lower n" "lower (url c)"]
    token_bonus_nonneg [of rt "combined_text c"] token_bonus_nonneg [of st "combined_text c"]
  by (auto simp: score_candidate_def Let_def split: if_splits)

lemma score_candidate_cse_Some:
  "score_candidate_cse n f lt st rt c = Some s \<Longrightarrow> str_in (lower f) (lower (title c)) \<and> 3 \<le> s"
  using name_bonus_cse_nonneg [of "lower n" "combined_text c"]
    location_bonus_nonneg [of lt "combined_text c"]
    context_bonus_cse_nonneg [of "combined_text c"]
    url_bonus_cse_nonneg [of "lower f" "lower n" "lower (url c)"]
    token_bonus_nonneg [of rt "combined_text c"] token_bonus_nonneg [of st "combined_text c"]
  by (auto simp: score_candidate_cse_def Let_def split: if_splits)

lemma score_candidate_None:
  "score_candidate n f lt st rt c = None \<longleftrightarrow> \<not> str_in (lower f) (lower (title c))"
  by (simp add: score_candidate_def Let_def)

lemma score_candidate_cse_None:
  "score_candidate_cse n f lt st rt c = None \<longleftrightarrow> \<not> str_in (lower f) (lower (title c))"
  by (simp add: score_candidate_cse_def Let_def)

lemma select_best_member:
  assumes pos: "\<And>c s. sc c = Some s \<Longrightarrow> 0 < s" and sel: "select_best sc cs = Some c"
  shows "c \<in> set cs \<and> sc c \<noteq> None"
proof -
  have "select_best sc cs = Some c \<longleftrightarrow> (\<exists>i m. first_max sc cs i m \<and> 5 \<le> m \<and> cs ! i = c)"
    by (rule select_best_Some_iff) (rule pos)
  with sel obtain i m where "first_max sc cs i m" "cs ! i = c" by blast
  then show ?thesis by (auto simp: first_max_def)
qed

lemma select_best_filter:
  "select_best sc (filter (\<lambda>c. sc c \<noteq> None) cs) = select_best sc cs"
  by (simp only: select_best_def foldl_keep_best_filter)

lemma score_candidate_pos: "score_candidate n f lt st rt c = Some s \<Longrightarrow> 0 < s"
  using score_candidate_Some by fastforce

lemma score_candidate_cse_pos: "score_candidate_cse n f lt st rt c = Some s \<Longrightarrow> 0 < s"
  using score_candidate_cse_Some by fastforce

text \<open>
  C1. Whatever the names, the tokens and the candidates are, a candidate returned by
  \<open>pick_candidate\<close> or by \<open>pick_best_linkedin_candidate\<close> is one of the candidates
  and its lower-cased title contains the lower-cased first name. A candidate whose title
  lacks it is skipped: taking all such candidates out of the list changes no result.
\<close>

theorem pick_candidate_gate:
  "(pick_candidate full_name first_name lt st cs rt = Some c
      \<longrightarrow> c \<in> set cs \<and> str_in (lower first_name) (lower (title c)))
   \<and> (pick_best_linkedin_candidate full_name first_name lt st cs rt = Some c
      \<longrightarrow> c \<in> set cs \<and> str_in (lower first_name) (lower (title c)))
   \<and> pick_candidate full_name first_name lt st
        (filter (\<lambda>c. str_in (lower first_name) (lower (title c))) cs) rt
      = pick_candidate full_name first_name lt st cs rt
   \<and> pick_best_linkedin_candidate full_name first_name lt st
        (filter (\<lambda>c. str_in (lower first_name) (lower (title c))) cs) rt
      = pick_best_linkedin_candidate full_name first_name lt st cs rt"
proof (intro conjI impI)
  assume "pick_candidate full_name first_name lt st cs rt = Some c"
  then have "c \<in> set cs \<and> score_candidate full_name first_name lt st rt c \<noteq> None"
    unfolding pick_candidate_def
    using select_best_member [of "score_candidate full_name first_name lt st rt" cs c]
      score_candidate_pos by blast
  then show "c \<in> set cs" "str_in (lower first_name) (lower (title c))"
    by (simp_all add: score_candidate_None)
next
  assume "pick_best_linkedin_candidate full_name first_name lt st cs rt = Some c"
  then have "c \<in> set cs \<and> score_candidate_cse full_name first_name lt st rt c \<noteq> None"
    unfolding pick_best_linkedin_candidate_def
    using select_best_member [of "score_candidate_cse full_name first_name lt st rt" cs c]
      score_candidate_cse_pos by blast
  then show "c \<in> set cs" "str_in (lower first_name) (lower (title c))"
    by (simp_all add: score_candidate_cse_None)
next
  show "pick_candidate full_name first_name lt st
          (filter (\<lambda>c. str_in (lower first_name) (lower (title c))) cs) rt
        = pick_candidate full_name first_name lt st cs rt"
    using select_best_filter [of "score_candidate full_name first_name lt st rt" cs]
    by (simp add: pick_candidate_def score_candidate_None)
next
  show "pick_best_linkedin_candidate full_name first_name lt st
          (filter (\<lambda>c. str_in (lower first_name) (lower (title c))) cs) rt
        = pick_best_linkedin_candidate full_name first_name lt st cs rt"
    using select_best_filter [of "score_candidate_cse full_name first_name lt st rt" cs]
    by (simp add: pick_best_linkedin_candidate_def score_candidate_cse_None)
qed

theorem pick_candidate_gate_witness:
  "pick_candidate ''Amna Mubarak'' ''Amna'' [''Lahore''] []
     [\<lparr>url = ''https://www.linkedin.com/in/bob'', title = ''Bob Mubarak - freelancer Lahore'', snippet = ''Lahore''\<rparr>,
      \<lparr>url = ''https://www.linkedin.com/in/amna-m'', title = ''AMNA Mubarak'', snippet = ''Lahore''\<rparr>] []
   = Some \<lparr>url = ''https://www.linkedin.com/in/amna-m'', title = ''AMNA Mubarak'', snippet = ''Lahore''\<rparr>
   \<and> str_in (lower ''Amna'') (lower (title \<lparr>url = ''https://www.linkedin.com/in/amna-m'', title = ''AMNA Mubarak'', snippet = ''Lahore''\<rparr>))"
proof -
  have h: "pick_candidate ''Amna Mubarak'' ''Amna'' [''Lahore''] []
     [\<lparr>url = ''https://www.linkedin.com/in/bob'', title = ''Bob Mubarak - freelancer Lahore'', snippet = ''Lahore''\<rparr>,
      \<lparr>url = ''https://www.linkedin.com/in/amna-m'', title = ''AMNA Mubarak'', snippet = ''Lahore''\<rparr>] []
   = Some \<lparr>url = ''https://www.linkedin.com/in/amna-m'', title = ''AMNA Mubarak'', snippet = ''Lahore''\<rparr>"
    by code_simp
  show ?thesis
    using h pick_candidate_gate [of "''Amna Mubarak''" "''Amna''" "[''Lahore'']" "[]"
      "[\<lparr>url = ''https://www.linkedin.com/in/bob'', title = ''Bob Mubarak - freelancer Lahore'', snippet = ''Lahore''\<rparr>,
      \<lparr>url = ''https://www.linkedin.com/in/amna-m'', title = ''AMNA Mubarak'', snippet = ''Lahore''\<rparr>]" "[]"
      "\<lparr>url = ''https://www.linkedin.com/in/amna-m'', title = ''AMNA Mubarak'', snippet = ''Lahore''\<rparr>"]
    by blast
qed

text \<open>
  C2. The selector returns a candidate exactly when that candidate is the first one, in
  the order of the list, to reach the largest score of the list and that score is at
  least 5; it returns nothing exactly when no candidate is scored 5 or more.
\<close>

theorem pick_candidate_first_maximum:
  "(pick_candidate full_name first_name lt st cs rt = Some c
      \<longleftrightarrow> (\<exists>i m. first_max (score_candidate full_name first_name lt st rt) cs i m
                 \<and> 5 \<le> m \<and> cs ! i = c))
   \<and> (pick_candidate full_name first_name lt st cs rt = None
      \<longleftrightarrow> (\<forall>c\<in>set cs. \<forall>s. score_candidate full_name first_name lt st rt c = Some s \<longrightarrow> s < 5))
   \<and> (pick_best_linkedin_candidate full_name first_name lt st cs rt = Some c
      \<longleftrightarrow> (\<exists>i m. first_max (score_candidate_cse full_name first_name lt st rt) cs i m
                 \<and> 5 \<le> m \<and> cs ! i = c))
   \<and> (pick_best_linkedin_candidate full_name first_name lt st cs rt = None
      \<longleftrightarrow> (\<forall>c\<in>set cs. \<forall>s. score_candidate_cse full_name first_name lt st rt c = Some s \<longrightarrow> s < 5))"
proof (intro conjI)
  show "pick_candidate full_name first_name lt st cs rt = Some c
      \<longleftrightarrow> (\<exists>i m. first_max (score_candidate full_name first_name lt st rt) cs i m
                 \<and> 5 \<le> m \<and> cs ! i = c)"
    unfolding pick_candidate_def by (rule select_best_Some_iff) (rule score_candidate_pos)
  show "pick_candidate full_name first_name lt st cs rt = None
      \<longleftrightarrow> (\<forall>c\<in>set cs. \<forall>s. score_candidate full_name first_name lt st rt c = Some s \<longrightarrow> s < 5)"
    unfolding pick_candidate_def by (rule select_best_None_iff) (rule score_candidate_pos)
  show "pick_best_linkedin_candidate full_name first_name lt st cs rt = Some c
      \<longleftrightarrow> (\<exists>i m. first_max (score_candidate_cse full_name first_name lt st rt) cs i m
                 \<and> 5 \<le> m \<and> cs ! i = c)"
    unfolding pick_best_linkedin_candidate_def
    by (rule select_best_Some_iff) (rule score_candidate_cse_pos)
  show "pick_best_linkedin_candidate full_name first_name lt st cs rt = None
      \<longleftrightarrow> (\<forall>c\<in>set cs. \<forall>s. score_candidate_cse full_name first_name lt st rt c = Some s \<longrightarrow> s < 5)"
    unfolding pick_best_linkedin_candidate_def
    by (rule select_best_None_iff) (rule score_candidate_cse_pos)
qed

theorem pick_candidate_first_maximum_witness:
  "pick_candidate ''Amna Mubarak'' ''Amna'' [''Lahore''] []
     [\<lparr>url = ''https://www.linkedin.com/in/amna-khan'', title = ''Amna Khan'', snippet = ''''\<rparr>,
      \<lparr>url = ''https://www.linkedin.com/in/amna-m1'', title = ''Amna Mubarak'', snippet = ''Lahore''\<rparr>,
      \<lparr>url = ''https://www.linkedin.com/in/amna-m2'', title = ''Amna Mubarak'', snippet = ''Lahore''\<rparr>] []
   = Some \<lparr>url = ''https://www.linkedin.com/in/amna-m1'', title = ''Amna Mubarak'', snippet = ''Lahore''\<rparr>
   \<and> (\<exists>i m. first_max (score_candidate ''Amna Mubarak'' ''Amna'' [''Lahore''] [] [])
         [\<lparr>url = ''https://www.linkedin.com/in/amna-khan'', title = ''Amna Khan'', snippet = ''''\<rparr>,
          \<lparr>url = ''https://www.linkedin.com/in/amna-m1'', title = ''Amna Mubarak'', snippet = ''Lahore''\<rparr>,
          \<lparr>url = ''https://www.linkedin.com/in/amna-m2'', title = ''Amna Mubarak'', snippet = ''Lahore''\<rparr>] i m
        \<and> 5 \<le> m
        \<and> [\<lparr>url = ''https://www.linkedin.com/in/amna-khan'', title = ''Amna Khan'', snippet = ''''\<rparr>,
          \<lparr>url = ''https://www.linkedin.com/in/amna-m1'', title = ''Amna Mubarak'', snippet = ''Lahore''\<rparr>,
          \<lparr>url = ''https://www.linkedin.com/in/amna-m2'', title = ''Amna Mubarak'', snippet = ''Lahore''\<rparr>] ! i
          = \<lparr>url = ''https://www.linkedin.com/in/amna-m1'', title = ''Amna Mubarak'', snippet = ''Lahore''\<rparr>)
   \<and> score_candidate ''Amna Mubarak'' ''Amna'' [''Lahore''] [] []
        \<lparr>url = ''https://www.linkedin.com/in/amna-m1'', title = ''Amna Mubarak'', snippet = ''Lahore''\<rparr> = Some 10
   \<and> score_candidate ''Amna Mubarak'' ''Amna'' [''Lahore''] [] []
        \<lparr>url = ''https://www.linkedin.com/in/amna-m2'', title = ''Amna Mubarak'', snippet = ''Lahore''\<rparr> = Some 10
   \<and> score_candidate ''Amna Mubarak'' ''Amna'' [''Lahore''] [] []
        \<lparr>url = ''https://www.linkedin.com/in/amna-khan'', title = ''Amna Khan'', snippet = ''''\<rparr> = Some 6"
proof -
  have h: "pick_candidate ''Amna Mubarak'' ''Amna'' [''Lahore''] []
     [\<lparr>url = ''https://www.linkedin.com/in/amna-khan'', title = ''Amna Khan'', snippet = ''''\<rparr>,
      \<lparr>url = ''https://www.linkedin.com/in/amna-m1'', title = ''Amna Mubarak'', snippet = ''Lahore''\<rparr>,
      \<lparr>url = ''https://www.linkedin.com/in/amna-m2'', title = ''Amna Mubarak'', snippet = ''Lahore''\<rparr>] []
   = Some \<lparr>url = ''https://www.linkedin.com/in/amna-m1'', title = ''Amna Mubarak'', snippet = ''Lahore''\<rparr>"
    by code_simp
  have s1: "score_candidate ''Amna Mubarak'' ''Amna'' [''Lahore''] [] []
        \<lparr>url = ''https://www.linkedin.com/in/amna-m1'', title = ''Amna Mubarak'', snippet = ''Lahore''\<rparr> = Some 10"
    by code_simp
  have s2: "score_candidate ''Amna Mubarak'' ''Amna'' [''Lahore''] [] []
        \<lparr>url = ''https://www.linkedin.com/in/amna-m2'', title = ''Amna Mubarak'', snippet = ''Lahore''\<rparr> = Some 10"
    by code_simp
  have s3: "score_candidate ''Amna Mubarak'' ''Amna'' [''Lahore''] [] []
        \<lparr>url = ''https://www.linkedin.com/in/amna-khan'', title = ''Amna Khan'', snippet = ''''\<rparr> = Some 6"
    by code_simp
  show ?thesis
    using h s1 s2 s3 pick_candidate_first_maximum [of "''Amna Mubarak''" "''Amna''" "[''Lahore'']" "[]"
     "[\<lparr>url = ''https://www.linkedin.com/in/amna-khan'', title = ''Amna Khan'', snippet = ''''\<rparr>,
      \<lparr>url = ''https://www.linkedin.com/in/amna-m1'', title = ''Amna Mubarak'', snippet = ''Lahore''\<rparr>,
      \<lparr>url = ''https://www.linkedin.com/in/amna-m2'', title = ''Amna Mubarak'', snippet = ''Lahore''\<rparr>]" "[]"
      "\<lparr>url = ''https://www.linkedin.com/in/amna-m1'', title = ''Amna Mubarak'', snippet = ''Lahore''\<rparr>"]
    by blast
qed

section \<open>The empty name\<close>

lemma str_in_Nil: "str_in [] t"
  by (cases t) simp_all

text \<open>
  C10. With the full name and the first name both empty, the empty first name occurs in
  every title, so the gate lets every candidate through with the base score 3; a
  location match, a professional keyword and the URL bonus then carry a candidate that
  has nothing to do with any name over the threshold, in either file.
\<close>

theorem empty_name_fails_open:
  "(\<forall>t. str_in (lower []) (lower t))
   \<and> score_candidate [] [] [''Lahore''] [] []
        \<lparr>url = ''https://www.linkedin.com/in/x'', title = ''Someone'', snippet = ''Freelancer in Lahore''\<rparr>
      = Some (3 + 0 + 2 + 2 + 2 + 0 + 0)
   \<and> pick_candidate [] [] [''Lahore''] []
        [\<lparr>url = ''https://www.linkedin.com/in/x'', title = ''Someone'', snippet = ''Freelancer in Lahore''\<rparr>] []
      = Some \<lparr>url = ''https://www.linkedin.com/in/x'', title = ''Someone'', snippet = ''Freelancer in Lahore''\<rparr>
   \<and> score_candidate_cse [] [] [''Lahore''] [] []
        \<lparr>url = ''https://www.linkedin.com/in/x'', title = ''Someone'', snippet = ''Freelancer in Lahore''\<rparr>
      = Some (3 + 0 + 2 + 2 + 1 + 0 + 0)
   \<and> pick_best_linkedin_candidate [] [] [''Lahore''] []
        [\<lparr>url = ''https://www.linkedin.com/in/x'', title = ''Someone'', snippet = ''Freelancer in Lahore''\<rparr>] []
      = Some \<lparr>url = ''https://www.linkedin.com/in/x'', title = ''Someone'', snippet = ''Freelancer in Lahore''\<rparr>"
proof (intro conjI)
  show "\<forall>t. str_in (lower []) (lower t)"
    by (simp add: lower_def str_in_Nil)
  show "score_candidate [] [] [''Lahore''] [] []
        \<lparr>url = ''https://www.linkedin.com/in/x'', title = ''Someone'', snippet = ''Freelancer in Lahore''\<rparr>
      = Some (3 + 0 + 2 + 2 + 2 + 0 + 0)"
    by code_simp
  show "pick_candidate [] [] [''Lahore''] []
        [\<lparr>url = ''https://www.linkedin.com/in/x'', title = ''Someone'', snippet = ''Freelancer in Lahore''\<rparr>] []
      = Some \<lparr>url = ''https://www.linkedin.com/in/x'', title = ''Someone'', snippet = ''Freelancer in Lahore''\<rparr>"
    by code_simp
  show "score_candidate_cse [] [] [''Lahore''] [] []
        \<lparr>url = ''https://www.linkedin.com/in/x'', title = ''Someone'', snippet = ''Freelancer in Lahore''\<rparr>
      = Some (3 + 0 + 2 + 2 + 1 + 0 + 0)"
    by code_simp
  show "pick_best_linkedin_candidate [] [] [''Lahore''] []
        [\<lparr>url = ''https://www.linkedin.com/in/x'', title = ''Someone'', snippet = ''Freelancer in Lahore''\<rparr>] []
      = Some \<lparr>url = ''https://www.linkedin.com/in/x'', title = ''Someone'', snippet = ''Freelancer in Lahore''\<rparr>"
    by code_simp
qed

section \<open>The bonus for the parts of the name\<close>

text \<open>
  The name \<open>Amna M.\<close> against the title \<open>Amna Khan\<close>: one part of the name occurs in
  the text, \<open>amna\<close>, and it has four characters, yet \<open>find_linkedins.py\<close> adds nothing,
  because the test is on the length of the second part of the name, \<open>m.\<close>. And where
  two parts occur, \<open>find_linkedins_cse.py\<close> adds 4, not 3.
\<close>

theorem name_bonus_second_part_counterexample:
  "str_in (lower ''Amna'') (lower (title \<lparr>url = '''', title = ''Amna Khan'', snippet = ''''\<rparr>))
   \<and> split_ws (lower ''Amna M.'') = [''amna'', ''m.'']
   \<and> matching_parts (split_ws (lower ''Amna M.''))
        (combined_text \<lparr>url = '''', title = ''Amna Khan'', snippet = ''''\<rparr>) = 1
   \<and> str_in ''amna'' (combined_text \<lparr>url = '''', title = ''Amna Khan'', snippet = ''''\<rparr>)
   \<and> \<not> str_in ''m.'' (combined_text \<lparr>url = '''', title = ''Amna Khan'', snippet = ''''\<rparr>)
   \<and> length ''amna'' > 2
   \<and> name_bonus (lower ''Amna M.'') (combined_text \<lparr>url = '''', title = ''Amna Khan'', snippet = ''''\<rparr>) \<noteq> 1
   \<and> score_candidate ''Amna M.'' ''Amna'' [] [] [] \<lparr>url = '''', title = ''Amna Khan'', snippet = ''''\<rparr> = Some 3
   \<and> matching_parts (split_ws (lower ''Amna Mubarak''))
        (combined_text \<lparr>url = '''', title = ''Amna Mubarak'', snippet = ''''\<rparr>) = 2
   \<and> name_bonus_cse (lower ''Amna Mubarak'') (combined_text \<lparr>url = '''', title = ''Amna Mubarak'', snippet = ''''\<rparr>) \<noteq> 3
   \<and> score_candidate_cse ''Amna Mubarak'' ''Amna'' [] [] [] \<lparr>url = '''', title = ''Amna Mubarak'', snippet = ''''\<rparr> = Some 7"
  by code_simp

text \<open>
  C3, as the code has it. For a candidate that passes the gate and a full name of more
  than one part: where at least two parts longer than one character occur in the title
  and snippet, the score gains 3 in \<open>find_linkedins.py\<close> and 4 in
  \<open>find_linkedins_cse.py\<close>; where exactly one occurs and the second part of the full
  name is longer than two characters, the score gains 1 in both.
\<close>

theorem name_bonus_added:
  assumes "str_in (lower first_name) (lower (title c))"
    and "length (split_ws (lower full_name)) > 1"
  shows "(matching_parts (split_ws (lower full_name)) (combined_text c) \<ge> 2 \<longrightarrow>
            score_candidate full_name first_name lt st rt c
              = Some (3 + 3 + location_bonus lt (combined_text c) + context_bonus (combined_text c)
                      + url_bonus (lower first_name) (lower full_name) (lower (url c))
                      + token_bonus rt (combined_text c) + token_bonus st (combined_text c))
          \<and> score_candidate_cse full_name first_name lt st rt c
              = Some (3 + 4 + location_bonus lt (combined_text c) + context_bonus_cse (combined_text c)
                      + url_bonus_cse (lower first_name) (lower full_name) (lower (url c))
                      + token_bonus rt (combined_text c) + token_bonus st (combined_text c)))
       \<and> (matching_parts (split_ws (lower full_name)) (combined_text c) = 1
            \<and> length (split_ws (lower full_name) ! 1) > 2 \<longrightarrow>
            score_candidate full_name first_name lt st rt c
              = Some (3 + 1 + location_bonus lt (combined_text c) + context_bonus (combined_text c)
                      + url_bonus (lower first_name) (lower full_name) (lower (url c))
                      + token_bonus rt (combined_text c) + token_bonus st (combined_text c))
          \<and> score_candidate_cse full_name first_name lt st rt c
              = Some (3 + 1 + location_bonus lt (combined_text c) + context_bonus_cse (combined_text c)
                      + url_bonus_cse (lower first_name) (lower full_name) (lower (url c))
                      + token_bonus rt (combined_text c) + token_bonus st (combined_text c)))"
  using assms
  by (simp add: score_candidate_def score_candidate_cse_def name_bonus_def name_bonus_cse_def Let_def)

theorem name_bonus_added_witness:
  "score_candidate ''Amna Mubarak'' ''Amna'' [] [] []
     \<lparr>url = '''', title = ''Amna Mubarak'', snippet = ''''\<rparr> = Some 6
   \<and> score_candidate_cse ''Amna Mubarak'' ''Amna'' [] [] []
     \<lparr>url = '''', title = ''Amna Mubarak'', snippet = ''''\<rparr> = Some 7
   \<and> score_candidate ''Amna Mubarak'' ''Amna'' [] [] []
     \<lparr>url = '''', title = ''Amna Khan'', snippet = ''''\<rparr> = Some 4
   \<and> score_candidate_cse ''Amna Mubarak'' ''Amna'' [] [] []
     \<lparr>url = '''', title = ''Amna Khan'', snippet = ''''\<rparr> = Some 4"
proof -
  have g1: "str_in (lower ''Amna'') (lower (title \<lparr>url = '''', title = ''Amna Mubarak'', snippet = ''''\<rparr>))"
    by code_simp
  have g2: "str_in (lower ''Amna'') (lower (title \<lparr>url = '''', title = ''Amna Khan'', snippet = ''''\<rparr>))"
    by code_simp
  have l: "length (split_ws (lower ''Amna Mubarak'')) > 1"
    by code_simp
  have m2: "matching_parts (split_ws (lower ''Amna Mubarak''))
              (combined_text \<lparr>url = '''', title = ''Amna Mubarak'', snippet = ''''\<rparr>) \<ge> 2"
    by code_simp
  have m1: "matching_parts (split_ws (lower ''Amna Mubarak''))
              (combined_text \<lparr>url = '''', title = ''Amna Khan'', snippet = ''''\<rparr>) = 1
            \<and> length (split_ws (lower ''Amna Mubarak'') ! 1) > 2"
    by code_simp
  have r1: "location_bonus [] (combined_text \<lparr>url = '''', title = ''Amna Mubarak'', snippet = ''''\<rparr>) = 0
     \<and> context_bonus (combined_text \<lparr>url = '''', title = ''Amna Mubarak'', snippet = ''''\<rparr>) = 0
     \<and> context_bonus_cse (combined_text \<lparr>url = '''', title = ''Amna Mubarak'', snippet = ''''\<rparr>) = 0
     \<and> token_bonus [] (combined_text \<lparr>url = '''', title = ''Amna Mubarak'', snippet = ''''\<rparr>) = 0"
    by code_simp
  have r2: "location_bonus [] (combined_text \<lparr>url = '''', title = ''Amna Khan'', snippet = ''''\<rparr>) = 0
     \<and> context_bonus (combined_text \<lparr>url = '''', title = ''Amna Khan'', snippet = ''''\<rparr>) = 0
     \<and> context_bonus_cse (combined_text \<lparr>url = '''', title = ''Amna Khan'', snippet = ''''\<rparr>) = 0
     \<and> token_bonus [] (combined_text \<lparr>url = '''', title = ''Amna Khan'', snippet = ''''\<rparr>) = 0"
    by code_simp
  have u: "url_bonus (lower ''Amna'') (lower ''Amna Mubarak'') (lower '''') = 0
     \<and> url_bonus_cse (lower ''Amna'') (lower ''Amna Mubarak'') (lower '''') = 0"
    by code_simp
  show ?thesis
    using name_bonus_added [OF g1 l, of "[]" "[]" "[]"] name_bonus_added [OF g2 l, of "[]" "[]" "[]"]
      m1 m2 r1 r2 u
    by simp
qed

section \<open>The bonus for the URL\<close>

text \<open>
  In \<open>find_linkedins_cse.py\<close> the two tests come in the other order and with the
  other weights: a part of the name anywhere in the URL gives 2 although the slug does
  not start with the first name, and a slug that starts with the first name gives 1 where
  no part of the name longer than two characters is in the URL.
\<close>

theorem url_bonus_cse_counterexample:
  "str_in (lower ''Amna'') (lower (title \<lparr>url = ''https://www.linkedin.com/in/mubarak-amna'', title = ''Amna'', snippet = ''''\<rparr>))
   \<and> \<not> startswith (lower ''https://www.linkedin.com/in/mubarak-amna'') (''https://www.linkedin.com/in/'' @ lower ''Amna'')
   \<and> \<not> startswith (lower ''https://www.linkedin.com/in/mubarak-amna'') (''https://linkedin.com/in/'' @ lower ''Amna'')
   \<and> part_in_url (lower ''Amna Mubarak'') (lower ''https://www.linkedin.com/in/mubarak-amna'')
   \<and> url_bonus_cse (lower ''Amna'') (lower ''Amna Mubarak'') (lower ''https://www.linkedin.com/in/mubarak-amna'') = 2
   \<and> score_candidate_cse ''Amna Mubarak'' ''Amna'' [] [] []
        \<lparr>url = ''https://www.linkedin.com/in/mubarak-amna'', title = ''Amna'', snippet = ''''\<rparr> = Some (3 + 1 + 2)
   \<and> str_in (lower ''Al'') (lower (title \<lparr>url = ''https://www.linkedin.com/in/al-b'', title = ''Al'', snippet = ''''\<rparr>))
   \<and> startswith (lower ''https://www.linkedin.com/in/al-b'') (''https://www.linkedin.com/in/'' @ lower ''Al'')
   \<and> url_bonus_cse (lower ''Al'') (lower ''Al B.'') (lower ''https://www.linkedin.com/in/al-b'') = 1
   \<and> score_candidate_cse ''Al B.'' ''Al'' [] [] []
        \<lparr>url = ''https://www.linkedin.com/in/al-b'', title = ''Al'', snippet = ''''\<rparr> = Some (3 + 0 + 1)"
  by code_simp

text \<open>
  C4, as the code has it. For a candidate that passes the gate, \<open>find_linkedins.py\<close>
  adds 2 where the URL starts with \<open>https://www.linkedin.com/in/\<close> or
  \<open>https://linkedin.com/in/\<close> followed by the first name, and otherwise 1 where a part
  of the full name longer than two characters occurs in the URL; the first test has
  precedence. \<open>find_linkedins_cse.py\<close> adds 2 where such a part occurs in the URL, and
  otherwise 1 where the URL starts with \<open>https://www.linkedin.com/in/\<close> followed by
  the first name.
\<close>

theorem url_bonus_added:
  assumes "str_in (lower first_name) (lower (title c))"
  shows "(startswith (lower (url c)) (''https://www.linkedin.com/in/'' @ lower first_name)
          \<or> startswith (lower (url c)) (''https://linkedin.com/in/'' @ lower first_name) \<longrightarrow>
            score_candidate full_name first_name lt st rt c
              = Some (3 + name_bonus (lower full_name) (combined_text c)
                      + location_bonus lt (combined_text c) + context_bonus (combined_text c)
                      + 2 + token_bonus rt (combined_text c) + token_bonus st (combined_text c)))
       \<and> (\<not> startswith (lower (url c)) (''https://www.linkedin.com/in/'' @ lower first_name)
          \<and> \<not> startswith (lower (url c)) (''https://linkedin.com/in/'' @ lower first_name)
          \<and> part_in_url (lower full_name) (lower (url c)) \<longrightarrow>
            score_candidate full_name first_name lt st rt c
              = Some (3 + name_bonus (lower full_name) (combined_text c)
                      + location_bonus lt (combined_text c) + context_bonus (combined_text c)
                      + 1 + token_bonus rt (combined_text c) + token_bonus st (combined_text c)))
       \<and> (part_in_url (lower full_name) (lower (url c)) \<longrightarrow>
            score_candidate_cse full_name first_name lt st rt c
              = Some (3 + name_bonus_cse (lower full_name) (combined_text c)
                      + location_bonus lt (combined_text c) + context_bonus_cse (combined_text c)
                      + 2 + token_bonus rt (combined_text c) + token_bonus st (combined_text c)))
       \<and> (\<not> part_in_url (lower full_name) (lower (url c))
          \<and> startswith (lower (url c)) (''https://www.linkedin.com/in/'' @ lower first_name) \<longrightarrow>
            score_candidate_cse full_name first_name lt st rt c
              = Some (3 + name_bonus_cse (lower full_name) (combined_text c)
                      + location_bonus lt (combined_text c) + context_bonus_cse (combined_text c)
                      + 1 + token_bonus rt (combined_text c) + token_bonus st (combined_text c)))"
  using assms
  by (simp add: score_candidate_def score_candidate_cse_def url_bonus_def url_bonus_cse_def Let_def)

theorem url_bonus_added_witness:
  "score_candidate ''Amna Mubarak'' ''Amna'' [] [] [] \<lparr>url = ''https://linkedin.com/in/amna-mubarak'', title = ''Amna'', snippet = ''''\<rparr>
       = Some (3 + name_bonus (lower ''Amna Mubarak'') (combined_text \<lparr>url = ''https://linkedin.com/in/amna-mubarak'', title = ''Amna'', snippet = ''''\<rparr>)
               + location_bonus [] (combined_text \<lparr>url = ''https://linkedin.com/in/amna-mubarak'', title = ''Amna'', snippet = ''''\<rparr>) + context_bonus (combined_text \<lparr>url = ''https://linkedin.com/in/amna-mubarak'', title = ''Amna'', snippet = ''''\<rparr>)
               + 2 + token_bonus [] (combined_text \<lparr>url = ''https://linkedin.com/in/amna-mubarak'', title = ''Amna'', snippet = ''''\<rparr>) + token_bonus [] (combined_text \<lparr>url = ''https://linkedin.com/in/amna-mubarak'', title = ''Amna'', snippet = ''''\<rparr>))
   \<and> score_candidate_cse ''Amna Mubarak'' ''Amna'' [] [] [] \<lparr>url = ''https://linkedin.com/in/amna-mubarak'', title = ''Amna'', snippet = ''''\<rparr>
       = Some (3 + name_bonus_cse (lower ''Amna Mubarak'') (combined_text \<lparr>url = ''https://linkedin.com/in/amna-mubarak'', title = ''Amna'', snippet = ''''\<rparr>)
               + location_bonus [] (combined_text \<lparr>url = ''https://linkedin.com/in/amna-mubarak'', title = ''Amna'', snippet = ''''\<rparr>) + context_bonus_cse (combined_text \<lparr>url = ''https://linkedin.com/in/amna-mubarak'', title = ''Amna'', snippet = ''''\<rparr>)
               + 2 + token_bonus [] (combined_text \<lparr>url = ''https://linkedin.com/in/amna-mubarak'', title = ''Amna'', snippet = ''''\<rparr>) + token_bonus [] (combined_text \<lparr>url = ''https://linkedin.com/in/amna-mubarak'', title = ''Amna'', snippet = ''''\<rparr>))
   \<and> score_candidate ''Amna Mubarak'' ''Amna'' [] [] [] \<lparr>url = ''https://www.linkedin.com/in/mubarak-amna'', title = ''Amna'', snippet = ''''\<rparr>
       = Some (3 + name_bonus (lower ''Amna Mubarak'') (combined_text \<lparr>url = ''https://www.linkedin.com/in/mubarak-amna'', title = ''Amna'', snippet = ''''\<rparr>)
               + location_bonus [] (combined_text \<lparr>url = ''https://www.linkedin.com/in/mubarak-amna'', title = ''Amna'', snippet = ''''\<rparr>) + context_bonus (combined_text \<lparr>url = ''https://www.linkedin.com/in/mubarak-amna'', title = ''Amna'', snippet = ''''\<rparr>)
               + 1 + token_bonus [] (combined_text \<lparr>url = ''https://www.linkedin.com/in/mubarak-amna'', title = ''Amna'', snippet = ''''\<rparr>) + token_bonus [] (combined_text \<lparr>url = ''https://www.linkedin.com/in/mubarak-amna'', title = ''Amna'', snippet = ''''\<rparr>))
   \<and> score_candidate_cse ''Al B.'' ''Al'' [] [] [] \<lparr>url = ''https://www.linkedin.com/in/al-b'', title = ''Al'', snippet = ''''\<rparr>
       = Some (3 + name_bonus_cse (lower ''Al B.'') (combined_text \<lparr>url = ''https://www.linkedin.com/in/al-b'', title = ''Al'', snippet = ''''\<rparr>)
               + location_bonus [] (combined_text \<lparr>url = ''https://www.linkedin.com/in/al-b'', title = ''Al'', snippet = ''''\<rparr>) + context_bonus_cse (combined_text \<lparr>url = ''https://www.linkedin.com/in/al-b'', title = ''Al'', snippet = ''''\<rparr>)
               + 1 + token_bonus [] (combined_text \<lparr>url = ''https://www.linkedin.com/in/al-b'', title = ''Al'', snippet = ''''\<rparr>) + token_bonus [] (combined_text \<lparr>url = ''https://www.linkedin.com/in/al-b'', title = ''Al'', snippet = ''''\<rparr>))
   \<and> score_candidate ''Amna Mubarak'' ''Amna'' [] [] [] \<lparr>url = ''https://linkedin.com/in/amna-mubarak'', title = ''Amna'', snippet = ''''\<rparr> = Some 6
   \<and> score_candidate_cse ''Amna Mubarak'' ''Amna'' [] [] [] \<lparr>url = ''https://linkedin.com/in/amna-mubarak'', title = ''Amna'', snippet = ''''\<rparr> = Some 6
   \<and> score_candidate ''Amna Mubarak'' ''Amna'' [] [] [] \<lparr>url = ''https://www.linkedin.com/in/mubarak-amna'', title = ''Amna'', snippet = ''''\<rparr> = Some 5
   \<and> score_candidate_cse ''Al B.'' ''Al'' [] [] [] \<lparr>url = ''https://www.linkedin.com/in/al-b'', title = ''Al'', snippet = ''''\<rparr> = Some 4"
proof -
  have g1: "str_in (lower ''Amna'') (lower (title \<lparr>url = ''https://linkedin.com/in/amna-mubarak'', title = ''Amna'', snippet = ''''\<rparr>))"
    by code_simp
  have g2: "str_in (lower ''Amna'') (lower (title \<lparr>url = ''https://www.linkedin.com/in/mubarak-amna'', title = ''Amna'', snippet = ''''\<rparr>))"
    by code_simp
  have g3: "str_in (lower ''Al'') (lower (title \<lparr>url = ''https://www.linkedin.com/in/al-b'', title = ''Al'', snippet = ''''\<rparr>))"
    by code_simp
  have u1: "startswith (lower (url \<lparr>url = ''https://linkedin.com/in/amna-mubarak'', title = ''Amna'', snippet = ''''\<rparr>)) (''https://linkedin.com/in/'' @ lower ''Amna'')"
    by code_simp
  have p1: "part_in_url (lower ''Amna Mubarak'') (lower (url \<lparr>url = ''https://linkedin.com/in/amna-mubarak'', title = ''Amna'', snippet = ''''\<rparr>))"
    by code_simp
  have u2: "\<not> startswith (lower (url \<lparr>url = ''https://www.linkedin.com/in/mubarak-amna'', title = ''Amna'', snippet = ''''\<rparr>)) (''https://www.linkedin.com/in/'' @ lower ''Amna'')
            \<and> \<not> startswith (lower (url \<lparr>url = ''https://www.linkedin.com/in/mubarak-amna'', title = ''Amna'', snippet = ''''\<rparr>)) (''https://linkedin.com/in/'' @ lower ''Amna'')
            \<and> part_in_url (lower ''Amna Mubarak'') (lower (url \<lparr>url = ''https://www.linkedin.com/in/mubarak-amna'', title = ''Amna'', snippet = ''''\<rparr>))"
    by code_simp
  have u3: "\<not> part_in_url (lower ''Al B.'') (lower (url \<lparr>url = ''https://www.linkedin.com/in/al-b'', title = ''Al'', snippet = ''''\<rparr>))
            \<and> startswith (lower (url \<lparr>url = ''https://www.linkedin.com/in/al-b'', title = ''Al'', snippet = ''''\<rparr>)) (''https://www.linkedin.com/in/'' @ lower ''Al'')"
    by code_simp
  have v: "score_candidate ''Amna Mubarak'' ''Amna'' [] [] [] \<lparr>url = ''https://linkedin.com/in/amna-mubarak'', title = ''Amna'', snippet = ''''\<rparr> = Some 6
   \<and> score_candidate_cse ''Amna Mubarak'' ''Amna'' [] [] [] \<lparr>url = ''https://linkedin.com/in/amna-mubarak'', title = ''Amna'', snippet = ''''\<rparr> = Some 6
   \<and> score_candidate ''Amna Mubarak'' ''Amna'' [] [] [] \<lparr>url = ''https://www.linkedin.com/in/mubarak-amna'', title = ''Amna'', snippet = ''''\<rparr> = Some 5
   \<and> score_candidate_cse ''Al B.'' ''Al'' [] [] [] \<lparr>url = ''https://www.linkedin.com/in/al-b'', title = ''Al'', snippet = ''''\<rparr> = Some 4"
    by code_simp
  have a: "score_candidate ''Amna Mubarak'' ''Amna'' [] [] [] \<lparr>url = ''https://linkedin.com/in/amna-mubarak'', title = ''Amna'', snippet = ''''\<rparr>
       = Some (3 + name_bonus (lower ''Amna Mubarak'') (combined_text \<lparr>url = ''https://linkedin.com/in/amna-mubarak'', title = ''Amna'', snippet = ''''\<rparr>)
               + location_bonus [] (combined_text \<lparr>url = ''https://linkedin.com/in/amna-mubarak'', title = ''Amna'', snippet = ''''\<rparr>) + context_bonus (combined_text \<lparr>url = ''https://linkedin.com/in/amna-mubarak'', title = ''Amna'', snippet = ''''\<rparr>)
               + 2 + token_bonus [] (combined_text \<lparr>url = ''https://linkedin.com/in/amna-mubarak'', title = ''Amna'', snippet = ''''\<rparr>) + token_bonus [] (combined_text \<lparr>url = ''https://linkedin.com/in/amna-mubarak'', title = ''Amna'', snippet = ''''\<rparr>))"
    using url_bonus_added [OF g1, of "''Amna Mubarak''" "[]" "[]" "[]"] u1 by blast
  have a': "score_candidate_cse ''Amna Mubarak'' ''Amna'' [] [] [] \<lparr>url = ''https://linkedin.com/in/amna-mubarak'', title = ''Amna'', snippet = ''''\<rparr>
       = Some (3 + name_bonus_cse (lower ''Amna Mubarak'') (combined_text \<lparr>url = ''https://linkedin.com/in/amna-mubarak'', title = ''Amna'', snippet = ''''\<rparr>)
               + location_bonus [] (combined_text \<lparr>url = ''https://linkedin.com/in/amna-mubarak'', title = ''Amna'', snippet = ''''\<rparr>) + context_bonus_cse (combined_text \<lparr>url = ''https://linkedin.com/in/amna-mubarak'', title = ''Amna'', snippet = ''''\<rparr>)
               + 2 + token_bonus [] (combined_text \<lparr>url = ''https://linkedin.com/in/amna-mubarak'', title = ''Amna'', snippet = ''''\<rparr>) + token_bonus [] (combined_text \<lparr>url = ''https://linkedin.com/in/amna-mubarak'', title = ''Amna'', snippet = ''''\<rparr>))"
    using url_bonus_added [OF g1, of "''Amna Mubarak''" "[]" "[]" "[]"] p1 by blast
  have b: "score_candidate ''Amna Mubarak'' ''Amna'' [] [] [] \<lparr>url = ''https://www.linkedin.com/in/mubarak-amna'', title = ''Amna'', snippet = ''''\<rparr>
       = Some (3 + name_bonus (lower ''Amna Mubarak'') (combined_text \<lparr>url = ''https://www.linkedin.com/in/mubarak-amna'', title = ''Amna'', snippet = ''''\<rparr>)
               + location_bonus [] (combined_text \<lparr>url = ''https://www.linkedin.com/in/mubarak-amna'', title = ''Amna'', snippet = ''''\<rparr>) + context_bonus (combined_text \<lparr>url = ''https://www.linkedin.com/in/mubarak-amna'', title = ''Amna'', snippet = ''''\<rparr>)
               + 1 + token_bonus [] (combined_text \<lparr>url = ''https://www.linkedin.com/in/mubarak-amna'', title = ''Amna'', snippet = ''''\<rparr>) + token_bonus [] (combined_text \<lparr>url = ''https://www.linkedin.com/in/mubarak-amna'', title = ''Amna'', snippet = ''''\<rparr>))"
    using url_bonus_added [OF g2, of "''Amna Mubarak''" "[]" "[]" "[]"] u2 by blast
  have c: "score_candidate_cse ''Al B.'' ''Al'' [] [] [] \<lparr>url = ''https://www.linkedin.com/in/al-b'', title = ''Al'', snippet = ''''\<rparr>
       = Some (3 + name_bonus_cse (lower ''Al B.'') (combined_text \<lparr>url = ''https://www.linkedin.com/in/al-b'', title = ''Al'', snippet = ''''\<rparr>)
               + location_bonus [] (combined_text \<lparr>url = ''https://www.linkedin.com/in/al-b'', title = ''Al'', snippet = ''''\<rparr>) + context_bonus_cse (combined_text \<lparr>url = ''https://www.linkedin.com/in/al-b'', title = ''Al'', snippet = ''''\<rparr>)
               + 1 + token_bonus [] (combined_text \<lparr>url = ''https://www.linkedin.com/in/al-b'', title = ''Al'', snippet = ''''\<rparr>) + token_bonus [] (combined_text \<lparr>url = ''https://www.linkedin.com/in/al-b'', title = ''Al'', snippet = ''''\<rparr>))"
    using url_bonus_added [OF g3, of "''Al B.''" "[]" "[]" "[]"] u3 by blast
  show ?thesis
    using a a' b c v by blast
qed

section \<open>De-duplication and the cap\<close>

lemma dedup_set: "set (dedup seen qs) = set qs - seen"
  by (induction qs arbitrary: seen) auto

lemma dedup_distinct: "distinct (dedup seen qs)"
  by (induction qs arbitrary: seen) (auto simp: dedup_set)

lemma dedup_subseq: "subseq (dedup seen qs) qs"
  by (induction qs arbitrary: seen) auto

lemma dedup_before:
  "q \<notin> seen \<Longrightarrow>
     set (takeWhile (\<lambda>x. x \<noteq> q) (dedup seen qs)) = set (takeWhile (\<lambda>x. x \<noteq> q) qs) - seen"
  by (induction qs arbitrary: seen) auto

lemma takeWhile_take_member:
  "q \<in> set (take n xs) \<Longrightarrow>
     takeWhile (\<lambda>x. x \<noteq> q) (take n xs) = takeWhile (\<lambda>x. x \<noteq> q) xs"
proof (induction xs arbitrary: n)
  case Nil
  then show ?case by simp
next
  case (Cons x xs)
  then show ?case by (cases n) auto
qed

lemma subseq_take: "subseq (take n xs) xs"
proof (induction xs arbitrary: n)
  case Nil
  then show ?case by simp
next
  case (Cons x xs)
  then show ?case by (cases n) auto
qed

lemma capped_dedup:
  "distinct (take n (dedup {} qs))
   \<and> length (take n (dedup {} qs)) \<le> n
   \<and> subseq (take n (dedup {} qs)) qs
   \<and> (\<forall>q\<in>set (take n (dedup {} qs)).
         set (takeWhile (\<lambda>x. x \<noteq> q) (take n (dedup {} qs))) = set (takeWhile (\<lambda>x. x \<noteq> q) qs))
   \<and> (length (take n (dedup {} qs)) < n \<longrightarrow> set (take n (dedup {} qs)) = set qs)"
proof (intro conjI ballI impI)
  show "distinct (take n (dedup {} qs))"
    by (simp add: dedup_distinct)
  show "length (take n (dedup {} qs)) \<le> n"
    by simp
  have "subseq (take n (dedup {} qs)) (dedup {} qs)"
    by (rule subseq_take)
  then show "subseq (take n (dedup {} qs)) qs"
    using dedup_subseq subseq_order.trans by blast
next
  fix q assume "q \<in> set (take n (dedup {} qs))"
  then have "takeWhile (\<lambda>x. x \<noteq> q) (take n (dedup {} qs)) = takeWhile (\<lambda>x. x \<noteq> q) (dedup {} qs)"
    by (rule takeWhile_take_member)
  then show "set (takeWhile (\<lambda>x. x \<noteq> q) (take n (dedup {} qs))) = set (takeWhile (\<lambda>x. x \<noteq> q) qs)"
    using dedup_before [of q "{}" qs] by simp
next
  assume "length (take n (dedup {} qs)) < n"
  then have "take n (dedup {} qs) = dedup {} qs" by simp
  then show "set (take n (dedup {} qs)) = set qs"
    by (simp add: dedup_set)
qed

text \<open>
  C6. Whatever the inputs, the list of queries has no string twice, is a subsequence of
  the assembled list, holds before each of its strings exactly the strings that the
  assembled list holds before the first occurrence of that string, and has at most 8
  entries in \<open>find_linkedins.py\<close> and at most 6 in \<open>find_linkedins_cse.py\<close>; below
  the cap, no assembled string is lost.
\<close>

theorem build_queries_distinct_capped:
  "distinct (build_queries name location skills role country)
   \<and> length (build_queries name location skills role country) \<le> 8
   \<and> subseq (build_queries name location skills role country)
        (assemble_queries name location skills role country)
   \<and> (\<forall>q\<in>set (build_queries name location skills role country).
         set (takeWhile (\<lambda>x. x \<noteq> q) (build_queries name location skills role country))
         = set (takeWhile (\<lambda>x. x \<noteq> q) (assemble_queries name location skills role country)))
   \<and> (length (build_queries name location skills role country) < 8 \<longrightarrow>
         set (build_queries name location skills role country)
         = set (assemble_queries name location skills role country))
   \<and> distinct (build_cse_queries name location skills role country)
   \<and> length (build_cse_queries name location skills role country) \<le> 6
   \<and> subseq (build_cse_queries name location skills role country)
        (assemble_cse_queries name location skills role country)
   \<and> (\<forall>q\<in>set (build_cse_queries name location skills role country).
         set (takeWhile (\<lambda>x. x \<noteq> q) (build_cse_queries name location skills role country))
         = set (takeWhile (\<lambda>x. x \<noteq> q) (assemble_cse_queries name location skills role country)))
   \<and> (length (build_cse_queries name location skills role country) < 6 \<longrightarrow>
         set (build_cse_queries name location skills role country)
         = set (assemble_cse_queries name location skills role country))"
  unfolding build_queries_def build_cse_queries_def
  using capped_dedup [of 8 "assemble_queries name location skills role country"]
    capped_dedup [of 6 "assemble_cse_queries name location skills role country"]
  by blast

theorem build_queries_distinct_capped_witness:
  "assemble_queries ''Amna Mubarak'' ''Lahore'' [''Analyst''] ''Analyst'' ''''
     = [quote ''Amna Mubarak'' @ '' freelancer Lahore site:linkedin.com/in'',
        quote ''Amna Mubarak'' @ '' Lahore site:linkedin.com/in'',
        quote ''Amna Mubarak'' @ '' Analyst Lahore site:linkedin.com/in'',
        quote ''Amna Mubarak'' @ '' Analyst Lahore site:linkedin.com/in'',
        quote ''Amna Mubarak'' @ '' site:linkedin.com/in'']
   \<and> build_queries ''Amna Mubarak'' ''Lahore'' [''Analyst''] ''Analyst'' ''''
     = [quote ''Amna Mubarak'' @ '' freelancer Lahore site:linkedin.com/in'',
        quote ''Amna Mubarak'' @ '' Lahore site:linkedin.com/in'',
        quote ''Amna Mubarak'' @ '' Analyst Lahore site:linkedin.com/in'',
        quote ''Amna Mubarak'' @ '' site:linkedin.com/in'']
   \<and> set (takeWhile (\<lambda>x. x \<noteq> quote ''Amna Mubarak'' @ '' site:linkedin.com/in'')
          (build_queries ''Amna Mubarak'' ''Lahore'' [''Analyst''] ''Analyst'' ''''))
     = set (takeWhile (\<lambda>x. x \<noteq> quote ''Amna Mubarak'' @ '' site:linkedin.com/in'')
          (assemble_queries ''Amna Mubarak'' ''Lahore'' [''Analyst''] ''Analyst'' ''''))
   \<and> set (build_queries ''Amna Mubarak'' ''Lahore'' [''Analyst''] ''Analyst'' '''')
     = set (assemble_queries ''Amna Mubarak'' ''Lahore'' [''Analyst''] ''Analyst'' '''')"
proof -
  have a: "assemble_queries ''Amna Mubarak'' ''Lahore'' [''Analyst''] ''Analyst'' ''''
     = [quote ''Amna Mubarak'' @ '' freelancer Lahore site:linkedin.com/in'',
        quote ''Amna Mubarak'' @ '' Lahore site:linkedin.com/in'',
        quote ''Amna Mubarak'' @ '' Analyst Lahore site:linkedin.com/in'',
        quote ''Amna Mubarak'' @ '' Analyst Lahore site:linkedin.com/in'',
        quote ''Amna Mubarak'' @ '' site:linkedin.com/in'']"
    by code_simp
  have b: "build_queries ''Amna Mubarak'' ''Lahore'' [''Analyst''] ''Analyst'' ''''
     = [quote ''Amna Mubarak'' @ '' freelancer Lahore site:linkedin.com/in'',
        quote ''Amna Mubarak'' @ '' Lahore site:linkedin.com/in'',
        quote ''Amna Mubarak'' @ '' Analyst Lahore site:linkedin.com/in'',
        quote ''Amna Mubarak'' @ '' site:linkedin.com/in'']"
    by code_simp
  have m: "quote ''Amna Mubarak'' @ '' site:linkedin.com/in''
            \<in> set (build_queries ''Amna Mubarak'' ''Lahore'' [''Analyst''] ''Analyst'' '''')"
    unfolding b by simp
  have l: "length (build_queries ''Amna Mubarak'' ''Lahore'' [''Analyst''] ''Analyst'' '''') < 8"
    unfolding b by simp
  show ?thesis
    using a b m l
      build_queries_distinct_capped [of "''Amna Mubarak''" "''Lahore''" "[''Analyst'']" "''Analyst''" "''''"]
    by blast
qed

section \<open>Records without a name, records in need of review\<close>

lemma split_ws_Nil: "split_ws [] = []"
  by (simp add: split_ws_def)

lemma normalize_whitespace_Nil: "normalize_whitespace [] = []"
  by (simp add: normalize_whitespace_def strip_def)

lemma first_name_from_Nil: "first_name_from [] = []"
  by (simp add: first_name_from_def normalize_whitespace_Nil)

lemma assemble_queries_Nil: "assemble_queries [] location skills role country = []"
  by (simp add: assemble_queries_def is_truncated_def split_ws_Nil first_name_from_Nil)

lemma assemble_cse_queries_Nil: "assemble_cse_queries [] location skills role country = []"
  by (simp add: assemble_cse_queries_def is_truncated_def split_ws_Nil first_name_from_Nil)

text \<open>
  C9. For a record whose name is the empty string the synthesiser of either file
  returns no query, and the processor leaves the record as it starts it: status
  \<open>not_found\<close>, no search call, nothing slept.
\<close>

theorem empty_name_not_found:
  assumes "p_name r = []"
  shows "build_queries (p_name r) location skills role country = []
         \<and> build_cse_queries (p_name r) location skills role country = []
         \<and> process_record prov n r = start_run n
         \<and> match_status (process_record prov n r) = Not_found
         \<and> calls (process_record prov n r) = n
         \<and> log (process_record prov n r) = []
         \<and> process_record_cse prov n r = start_run n
         \<and> process_records prov [r] 0 None = [start_run 0]"
  using assms
  by (simp add: build_queries_def build_cse_queries_def assemble_queries_Nil
      assemble_cse_queries_Nil process_record_def process_record_cse_def process_records_def
      start_run_def)

theorem empty_name_not_found_witness:
  "p_name \<lparr>p_name = [], p_location = ''Lahore'', p_role = ''Analyst'', p_country = ''Pakistan'',
            p_skills = [''Market Research'']\<rparr> = []
   \<and> build_queries [] ''Lahore'' [''Market Research''] ''Analyst'' ''Pakistan'' = []
   \<and> match_status (process_record (\<lambda>n q. Failure ''Serper error 429: busy'') 7
        \<lparr>p_name = [], p_location = ''Lahore'', p_role = ''Analyst'', p_country = ''Pakistan'',
          p_skills = [''Market Research'']\<rparr>) = Not_found
   \<and> calls (process_record (\<lambda>n q. Failure ''Serper error 429: busy'') 7
        \<lparr>p_name = [], p_location = ''Lahore'', p_role = ''Analyst'', p_country = ''Pakistan'',
          p_skills = [''Market Research'']\<rparr>) = 7
   \<and> log (process_record (\<lambda>n q. Failure ''Serper error 429: busy'') 7
        \<lparr>p_name = [], p_location = ''Lahore'', p_role = ''Analyst'', p_country = ''Pakistan'',
          p_skills = [''Market Research'']\<rparr>) = []"
proof -
  have h: "p_name \<lparr>p_name = [], p_location = ''Lahore'', p_role = ''Analyst'', p_country = ''Pakistan'',
            p_skills = [''Market Research'']\<rparr> = []"
    by simp
  show ?thesis
    using h empty_name_not_found [OF h, of "''Lahore''" "[''Market Research'']" "''Analyst''"
      "''Pakistan''" "\<lambda>n q. Failure ''Serper error 429: busy''" 7]
    by (simp add: start_run_def)
qed

text \<open>
  C7 at a record where the first query finds no candidate and the second finds one that
  the selector rejects. The outcome is \<open>needs_review\<close>, and the query recorded is
  \<open>queries[0]\<close>, the first query of the list, which produced no candidate; the query
  that produced the candidates is the second. The comment on that assignment in
  \<open>find_linkedins.py\<close> says the first query that produced candidates is kept.
\<close>

theorem needs_review_query_used_is_first_query:
  "build_queries ''Amna Mubarak'' ''Lahore'' [] [] []
     = [quote ''Amna Mubarak'' @ '' freelancer Lahore site:linkedin.com/in'',
        quote ''Amna Mubarak'' @ '' Lahore site:linkedin.com/in'',
        quote ''Amna Mubarak'' @ '' site:linkedin.com/in'']
   \<and> extract_candidates [] = []
   \<and> extract_candidates [\<lparr>link = ''https://www.linkedin.com/in/some-person'', item_title = ''Some Person'', item_snippet = ''Teacher''\<rparr>]
     = [\<lparr>url = ''https://www.linkedin.com/in/some-person'', title = ''Some Person'', snippet = ''Teacher''\<rparr>]
   \<and> process_record
        (\<lambda>n q. if q = quote ''Amna Mubarak'' @ '' Lahore site:linkedin.com/in''
                then Results [\<lparr>link = ''https://www.linkedin.com/in/some-person'', item_title = ''Some Person'', item_snippet = ''Teacher''\<rparr>]
                else Results [])
        0 \<lparr>p_name = ''Amna Mubarak'', p_location = ''Lahore'', p_role = [], p_country = [], p_skills = []\<rparr>
     = \<lparr>best_url = [], match_status = Needs_review,
         query_used = quote ''Amna Mubarak'' @ '' freelancer Lahore site:linkedin.com/in'',
         all_candidates = [\<lparr>url = ''https://www.linkedin.com/in/some-person'', title = ''Some Person'', snippet = ''Teacher''\<rparr>],
         calls = 3,
         log = [Pause, Search (quote ''Amna Mubarak'' @ '' freelancer Lahore site:linkedin.com/in''),
                Pause, Search (quote ''Amna Mubarak'' @ '' Lahore site:linkedin.com/in''),
                Pause, Search (quote ''Amna Mubarak'' @ '' site:linkedin.com/in'')]\<rparr>
   \<and> query_used (process_record_cse
        (\<lambda>n q. if q = quote ''Amna Mubarak'' @ '' Lahore site:linkedin.com/in''
                then Results [\<lparr>link = ''https://www.linkedin.com/in/some-person'', item_title = ''Some Person'', item_snippet = ''Teacher''\<rparr>]
                else Results [])
        0 \<lparr>p_name = ''Amna Mubarak'', p_location = ''Lahore'', p_role = [], p_country = [], p_skills = []\<rparr>)
     = quote ''Amna Mubarak'' @ '' freelancer Lahore site:linkedin.com/in''"
  by code_simp

section \<open>Failures of the search call\<close>













lemma process_loop_Cons:
  "process_loop one n (r # rs) [] = one n r # process_loop one (calls (one n r)) rs []"
proof -
  have "process_loop one n rs (acc @ out_rows) = acc @ process_loop one n rs out_rows"
    for n rs acc out_rows
    by (induction rs arbitrary: n out_rows) (simp_all add: Let_def)
  from this [of "calls (one n r)" rs "[one n r]" "[]"] show ?thesis
    by (simp add: Let_def)
qed




section \<open>Whitespace normalisation and the first name\<close>

lemma isspace_space: "isspace CHR '' ''"
  by (simp add: isspace_def)

lemma strip_rstrip: "strip s = rstrip (dropWhile isspace s)"
  by (simp add: strip_def rstrip_def)

lemma rstrip_word: "\<forall>c\<in>set w. \<not> isspace c \<Longrightarrow> rstrip w = w"
proof (cases "rev w")
  case Nil
  then show ?thesis by (simp add: rstrip_def)
next
  case (Cons c cs)
  assume "\<forall>c\<in>set w. \<not> isspace c"
  moreover have "c \<in> set w" using Cons by (metis list.set_intros(1) set_rev)
  ultimately have "\<not> isspace c" by blast
  then show ?thesis using Cons by (simp add: rstrip_def)
qed

lemma rstrip_blank: "\<forall>c\<in>set x. isspace c \<Longrightarrow> rstrip x = []"
  by (simp add: rstrip_def)

lemma rstrip_Nil_iff: "rstrip x = [] \<longleftrightarrow> (\<forall>c\<in>set x. isspace c)"
  by (auto simp: rstrip_def dropWhile_eq_Nil_conv)

lemma rstrip_append:
  "rstrip (p @ x) = (if rstrip x = [] then rstrip p else p @ rstrip x)"
proof (cases "rstrip x = []")
  case True
  have "dropWhile isspace (rev x @ rev p) = dropWhile isspace (rev p)"
    by (rule dropWhile_append2) (use True in \<open>simp add: rstrip_Nil_iff\<close>)
  then have e: "rstrip (p @ x) = rstrip p"
    by (simp add: rstrip_def)
  show ?thesis unfolding e using True by simp
next
  case False
  then obtain c where c: "c \<in> set (rev x)" "\<not> isspace c"
    by (auto simp: rstrip_Nil_iff)
  then have "dropWhile isspace (rev x @ rev p) = dropWhile isspace (rev x) @ rev p"
    by (simp add: dropWhile_append1)
  then have e: "rstrip (p @ x) = p @ rstrip x"
    by (simp add: rstrip_def)
  show ?thesis unfolding e using False by simp
qed

lemma split_run_words:
  "\<forall>c\<in>set cur. \<not> isspace c \<Longrightarrow> w \<in> set (split_run cur s)
     \<Longrightarrow> w \<noteq> [] \<and> (\<forall>c\<in>set w. \<not> isspace c)"
proof (induction s arbitrary: cur)
  case Nil
  then show ?case by (auto split: if_splits)
next
  case (Cons c cs)
  show ?case
  proof (cases "isspace c")
    case True
    then have "w = cur \<and> cur \<noteq> [] \<or> w \<in> set (split_run [] cs)"
      using Cons.prems(2) by (auto split: if_splits)
    then show ?thesis
      using Cons.IH [of "[]"] Cons.prems(1) by auto
  next
    case False
    then have "w \<in> set (split_run (cur @ [c]) cs)"
      using Cons.prems(2) by simp
    moreover have "\<forall>d\<in>set (cur @ [c]). \<not> isspace d"
      using Cons.prems(1) False by auto
    ultimately show ?thesis using Cons.IH by blast
  qed
qed

lemma split_ws_words:
  "w \<in> set (split_ws s) \<Longrightarrow> w \<noteq> [] \<and> (\<forall>c\<in>set w. \<not> isspace c)"
  unfolding split_ws_def using split_run_words [of "[]" w s] by simp

lemma join_sp_Nil_iff:
  "\<forall>w\<in>set ws. w \<noteq> [] \<Longrightarrow> join_sp ws = [] \<longleftrightarrow> ws = []"
  by (induction ws rule: join_sp.induct) auto

lemma join_sp_Cons:
  "join_sp (w # ws) = (if ws = [] then w else w @ CHR '' '' # join_sp ws)"
  by (cases ws) simp_all

lemma sub_ws_dropWhile:
  "dropWhile isspace (sub_ws b s) = sub_ws False (dropWhile isspace s)"
  by (induction s arbitrary: b) (auto simp: isspace_space)

lemma split_run_dropWhile: "split_run [] (dropWhile isspace s) = split_run [] s"
  by (induction s) auto

lemma rstrip_space: "rstrip [CHR '' ''] = []"
  by (simp add: rstrip_def isspace_space)

lemma rstrip_word_space:
  assumes "\<forall>c\<in>set cur. \<not> isspace c"
  shows "rstrip (cur @ [CHR '' '']) = cur"
proof -
  have "rstrip (cur @ [CHR '' '']) = rstrip cur"
    unfolding rstrip_append [of cur "[CHR '' '']"] using rstrip_space by simp
  then show ?thesis using rstrip_word [OF assms] by simp
qed

lemma rstrip_sub_ws:
  "\<forall>c\<in>set cur. \<not> isspace c \<Longrightarrow> (cur = [] \<longleftrightarrow> b)
     \<Longrightarrow> rstrip (cur @ sub_ws b s) = join_sp (split_run cur s)"
proof (induction s arbitrary: cur b)
  case Nil
  then show ?case by (simp add: rstrip_word)
next
  case (Cons c cs)
  show ?case
  proof (cases "isspace c")
    case False
    have "rstrip ((cur @ [c]) @ sub_ws False cs) = join_sp (split_run (cur @ [c]) cs)"
      by (rule Cons.IH) (use Cons.prems(1) False in auto)
    then show ?thesis using False by simp
  next
    case True
    note sp = True
    have ih: "rstrip ([] @ sub_ws True cs) = join_sp (split_run [] cs)"
      by (rule Cons.IH) simp_all
    have words: "\<forall>w\<in>set (split_run [] cs). w \<noteq> []"
      using split_run_words [of "[]" _ cs] by simp
    show ?thesis
    proof (cases b)
      case True
      then have "cur = []" using Cons.prems(2) by simp
      then show ?thesis using True sp ih by simp
    next
      case False
      then have ne: "cur \<noteq> []" using Cons.prems(2) by simp
      have lhs: "cur @ sub_ws b (c # cs) = (cur @ [CHR '' '']) @ sub_ws True cs"
        using False sp by simp
      have rhs: "split_run cur (c # cs) = cur # split_run [] cs"
        using sp ne by simp
      show ?thesis
      proof (cases "split_run [] cs = []")
        case True
        then have "rstrip (sub_ws True cs) = []" using ih by simp
        then have "rstrip ((cur @ [CHR '' '']) @ sub_ws True cs) = rstrip (cur @ [CHR '' ''])"
          unfolding rstrip_append [of "cur @ [CHR '' '']" "sub_ws True cs"] by simp
        also have "\<dots> = cur"
          by (rule rstrip_word_space) (rule Cons.prems(1))
        finally have "rstrip (cur @ sub_ws b (c # cs)) = cur"
          unfolding lhs .
        moreover have "join_sp (split_run cur (c # cs)) = cur"
          unfolding rhs True by simp
        ultimately show ?thesis by simp
      next
        case False
        then have n: "rstrip (sub_ws True cs) \<noteq> []"
          using ih words join_sp_Nil_iff [of "split_run [] cs"] by simp
        have "rstrip ((cur @ [CHR '' '']) @ sub_ws True cs)
              = (cur @ [CHR '' '']) @ rstrip (sub_ws True cs)"
          unfolding rstrip_append [of "cur @ [CHR '' '']" "sub_ws True cs"] using n by simp
        then have "rstrip (cur @ sub_ws b (c # cs)) = cur @ CHR '' '' # join_sp (split_run [] cs)"
          unfolding lhs using ih by simp
        moreover have "join_sp (split_run cur (c # cs)) = cur @ CHR '' '' # join_sp (split_run [] cs)"
          unfolding rhs using False by (simp add: join_sp_Cons)
        ultimately show ?thesis by simp
      qed
    qed
  qed
qed

lemma normalize_whitespace_join:
  "normalize_whitespace s = join_sp (split_ws s)"
proof -
  have n: "normalize_whitespace s = rstrip (sub_ws False (dropWhile isspace s))"
    by (simp add: normalize_whitespace_def strip_rstrip sub_ws_dropWhile)
  show ?thesis
  proof (cases "dropWhile isspace s")
    case Nil
    have "split_run [] s = split_run [] []"
      using split_run_dropWhile [of s] unfolding Nil by simp
    then have "split_run [] s = []" by simp
    then show ?thesis using n Nil by (simp add: split_ws_def rstrip_def)
  next
    case (Cons d ds)
    have "dropWhile isspace s \<noteq> []" using Cons by simp
    then have "\<not> isspace (hd (dropWhile isspace s))" by (rule hd_dropWhile)
    then have nd: "\<not> isspace d" using Cons by simp
    have "rstrip ([d] @ sub_ws False ds) = join_sp (split_run [d] ds)"
      using rstrip_sub_ws [of "[d]" False ds] nd by simp
    moreover have "split_run [] s = split_run [d] ds"
      using split_run_dropWhile [of s] Cons nd by simp
    ultimately show ?thesis using n Cons nd by (simp add: split_ws_def)
  qed
qed

lemma split_at_first:
  "sep \<notin> set a \<Longrightarrow> hd (split_at sep cur (a @ sep # r)) = cur @ a"
  by (induction a arbitrary: cur) auto

lemma split_at_whole:
  "sep \<notin> set a \<Longrightarrow> split_at sep cur a = [cur @ a]"
  by (induction a arbitrary: cur) auto

lemma first_name_from_split:
  assumes "split_ws name = a # rest"
  shows "first_name_from name = a \<and> a \<noteq> []"
proof -
  have w: "a \<noteq> [] \<and> (\<forall>c\<in>set a. \<not> isspace c)"
    using split_ws_words [of a name] assms by simp
  then have sp: "CHR '' '' \<notin> set a" using isspace_space by blast
  have n: "normalize_whitespace name = join_sp (a # rest)"
    using normalize_whitespace_join assms by simp
  show ?thesis
  proof (cases rest)
    case Nil
    then show ?thesis
      using n w sp by (simp add: first_name_from_def split_on_def split_at_whole)
  next
    case (Cons v vs)
    then have "normalize_whitespace name = a @ CHR '' '' # join_sp (v # vs)"
      using n by simp
    then show ?thesis
      using w sp by (simp add: first_name_from_def split_on_def split_at_first)
  qed
qed

section \<open>The queries for a truncated name\<close>

lemma dedup_append: "dedup seen (xs @ ys) = dedup seen xs @ dedup (seen \<union> set xs) ys"
proof (induction xs arbitrary: seen)
  case Nil
  show ?case by simp
next
  case (Cons x xs)
  show ?case
  proof (cases "x \<in> seen")
    case True
    then have "seen \<union> set (x # xs) = seen \<union> set xs" by auto
    then show ?thesis using True Cons.IH [of seen] by simp
  next
    case False
    have "seen \<union> set (x # xs) = insert x seen \<union> set xs" by auto
    then show ?thesis using False Cons.IH [of "insert x seen"] by simp
  qed
qed

lemma nth_append_right_mem:
  assumes "i < length (A @ B)" "\<not> i < length A"
  shows "(A @ B) ! i \<in> set B"
proof -
  have "i - length A < length B" using assms by simp
  then have "B ! (i - length A) \<in> set B" by (rule nth_mem)
  then show ?thesis using assms(2) by (simp add: nth_append)
qed

lemma length_dedup: "length (dedup seen qs) \<le> length qs"
  by (induction qs arbitrary: seen) (auto simp: le_SucI)

lemma stage_before:
  assumes len: "length T \<le> n" and disj: "set T \<inter> set F = {}"
  shows "set T \<subseteq> set (take n (dedup {} (T @ R))) \<and> all_before T F (take n (dedup {} (T @ R)))"
proof -
  let ?A = "dedup {} T"
  let ?B = "take (n - length ?A) (dedup (set T) R)"
  have "length ?A \<le> n" using length_dedup [of "{}" T] len by simp
  then have out: "take n (dedup {} (T @ R)) = ?A @ ?B"
    by (simp add: dedup_append)
  have sA: "set ?A = set T" by (simp add: dedup_set)
  have "set ?B \<subseteq> set (dedup (set T) R)" by (rule set_take_subset)
  then have sB: "set ?B \<inter> set T = {}" by (auto simp: dedup_set)
  have sub: "set T \<subseteq> set (?A @ ?B)" using sA by auto
  have "all_before T F (?A @ ?B)"
    unfolding all_before_def
  proof (intro allI impI)
    fix i j
    assume i: "i < length (?A @ ?B)" and j: "j < length (?A @ ?B)"
      and m: "(?A @ ?B) ! i \<in> set T \<and> (?A @ ?B) ! j \<in> set F"
    have "i < length ?A"
    proof (rule ccontr)
      assume "\<not> i < length ?A"
      with i have "(?A @ ?B) ! i \<in> set ?B" by (rule nth_append_right_mem)
      then show False using m sB by blast
    qed
    moreover have "\<not> j < length ?A"
    proof
      assume "j < length ?A"
      then have "(?A @ ?B) ! j \<in> set ?A" by (simp add: nth_append)
      then show False using m sA disj by blast
    qed
    ultimately show "i < j" by simp
  qed
  then show ?thesis using sub out by simp
qed

lemma quoted_differs: "quote a @ Y \<noteq> quote (a @ CHR '' '' # b) @ X"
  by (simp add: quote_def)

lemma unquoted_differs_aux: "a @ CHR '' '' # Y \<noteq> CHR 0x22 # a @ Z"
proof (induction a arbitrary: Y Z)
  case Nil
  show ?case by simp
next
  case (Cons c a)
  show ?case
  proof
    assume "(c # a) @ CHR '' '' # Y = CHR 0x22 # (c # a) @ Z"
    then have "c = CHR 0x22" "a @ CHR '' '' # Y = c # a @ Z" by simp_all
    then have "a @ CHR '' '' # Y = CHR 0x22 # a @ Z" by simp
    then show False using Cons.IH by blast
  qed
qed

lemma unquoted_differs: "a @ CHR '' '' # Y \<noteq> quote (a @ W) @ X"
  using unquoted_differs_aux [of a Y "W @ CHR 0x22 # X"] by (simp add: quote_def)

lemma truncated_stage_shape:
  "q \<in> set (truncated_stage a l t) \<Longrightarrow> (\<exists>Y. q = quote a @ Y) \<or> (\<exists>Y. q = a @ CHR '' '' # Y)"
  by (auto simp: truncated_stage_def split: if_splits)

lemma truncated_stage_cse_shape:
  "q \<in> set (truncated_stage_cse a l t) \<Longrightarrow> (\<exists>Y. q = quote a @ Y) \<or> (\<exists>Y. q = a @ CHR '' '' # Y)"
  by (auto simp: truncated_stage_cse_def split: if_splits)

lemma later_stage_shape:
  "q \<in> set (full_name_stage nq l r t @ fallback_stage nq l c) \<Longrightarrow> \<exists>X. q = nq @ X"
  by (auto simp: full_name_stage_def fallback_stage_def split: if_splits)

lemma stages_disjoint:
  "set (truncated_stage a l t)
     \<inter> set (full_name_stage (quote (a @ CHR '' '' # b)) l r t' @ fallback_stage (quote (a @ CHR '' '' # b)) l c) = {}"
proof -
  have "q \<notin> set (full_name_stage (quote (a @ CHR '' '' # b)) l r t' @ fallback_stage (quote (a @ CHR '' '' # b)) l c)"
    if "q \<in> set (truncated_stage a l t)" for q
    using truncated_stage_shape [OF that] later_stage_shape [of q "quote (a @ CHR '' '' # b)" l r t' c]
      quoted_differs [of a _ b] unquoted_differs [of a _ "CHR '' '' # b"]
    by metis
  then show ?thesis by blast
qed

lemma stages_disjoint_cse:
  "set (truncated_stage_cse a l t)
     \<inter> set (full_name_stage (quote (a @ CHR '' '' # b)) l r t' @ fallback_stage (quote (a @ CHR '' '' # b)) l c) = {}"
proof -
  have "q \<notin> set (full_name_stage (quote (a @ CHR '' '' # b)) l r t' @ fallback_stage (quote (a @ CHR '' '' # b)) l c)"
    if "q \<in> set (truncated_stage_cse a l t)" for q
    using truncated_stage_cse_shape [OF that] later_stage_shape [of q "quote (a @ CHR '' '' # b)" l r t' c]
      quoted_differs [of a _ b] unquoted_differs [of a _ "CHR '' '' # b"]
    by metis
  then show ?thesis by blast
qed

lemma length_truncated_stage: "length (truncated_stage a l t) \<le> 4"
  by (simp add: truncated_stage_def)

lemma length_truncated_stage_cse: "length (truncated_stage_cse a l t) \<le> 4"
  by (simp add: truncated_stage_cse_def)

lemma truncated_name_facts:
  assumes "split_ws name = [a, b]" "length b \<le> 2" "endswith b ''.''"
  shows "is_truncated name \<and> first_name_from name = a \<and> a \<noteq> [] \<and> name \<noteq> []
         \<and> normalize_whitespace name = a @ CHR '' '' # b"
proof -
  have "is_truncated name" using assms by (simp add: is_truncated_def)
  moreover have "first_name_from name = a \<and> a \<noteq> []"
    using first_name_from_split [of name a "[b]"] assms(1) by simp
  moreover have "name \<noteq> []" using assms(1) by (auto simp: split_ws_def)
  moreover have "normalize_whitespace name = a @ CHR '' '' # b"
    using normalize_whitespace_join [of name] assms(1) by simp
  ultimately show ?thesis by simp
qed

lemma assemble_truncated:
  assumes "split_ws name = [a, b]" "length b \<le> 2" "endswith b ''.''"
  shows "assemble_queries name location skills role country
         = truncated_stage a (normalize_whitespace location) (top_skill_of skills)
           @ ((if normalize_whitespace location \<noteq> []
               then full_name_stage (quote (normalize_whitespace name)) (normalize_whitespace location)
                      (normalize_whitespace role) (top_skill_of skills)
               else [])
              @ fallback_stage (quote (normalize_whitespace name)) (normalize_whitespace location)
                  (normalize_whitespace country))"
  using truncated_name_facts [OF assms]
  by (simp add: assemble_queries_def Let_def quote_def)

lemma assemble_cse_truncated:
  assumes "split_ws name = [a, b]" "length b \<le> 2" "endswith b ''.''"
  shows "assemble_cse_queries name location skills role country
         = truncated_stage_cse a (normalize_whitespace location) (top_skill_of skills)
           @ ((if normalize_whitespace location \<noteq> []
               then full_name_stage (quote (normalize_whitespace name)) (normalize_whitespace location)
                      (normalize_whitespace role) (top_skill_of skills)
               else [])
              @ fallback_stage (quote (normalize_whitespace name)) (normalize_whitespace location)
                  (normalize_whitespace country))"
  using truncated_name_facts [OF assms]
  by (simp add: assemble_cse_queries_def Let_def quote_def)

text \<open>
  The truncated name \<open>Amna M.\<close> with an empty location: the two queries on the quoted
  first name are appended only under \<open>if loc_q\<close>, so neither file emits a query that
  starts with the quoted first name. The same happens for a location of one space, which
  is not empty but normalises to the empty \<open>loc_q\<close>. And a name with a tab in its first
  space-separated part: it has exactly two parts between single spaces, the second is
  \<open>M.\<close>, yet \<open>name.split()\<close> cuts at the tab as well, finds three parts, and the name
  is not taken as truncated.
\<close>

theorem quoted_first_name_absent_counterexample:
  "split_ws ''Amna M.'' = [''Amna'', ''M.'']
   \<and> length ''M.'' \<le> 2 \<and> endswith ''M.'' ''.''
   \<and> is_truncated ''Amna M.''
   \<and> build_queries ''Amna M.'' [] [''Market Research''] ''Analyst'' []
     = [''Amna freelancer  site:linkedin.com/in'', quote ''Amna M.'' @ '' site:linkedin.com/in'']
   \<and> \<not> startswith ''Amna freelancer  site:linkedin.com/in'' (quote ''Amna'')
   \<and> \<not> startswith (quote ''Amna M.'' @ '' site:linkedin.com/in'') (quote ''Amna'')
   \<and> build_cse_queries ''Amna M.'' [] [''Market Research''] ''Analyst'' []
     = [''Amna freelancer  site:linkedin.com/in'', quote ''Amna M.'' @ '' site:linkedin.com/in'']
   \<and> '' '' \<noteq> [] \<and> normalize_whitespace '' '' = []
   \<and> build_queries ''Amna M.'' '' '' [''Market Research''] ''Analyst'' []
     = [''Amna freelancer  site:linkedin.com/in'', quote ''Amna M.'' @ '' site:linkedin.com/in'']
   \<and> build_cse_queries ''Amna M.'' '' '' [''Market Research''] ''Analyst'' []
     = [''Amna freelancer  site:linkedin.com/in'', quote ''Amna M.'' @ '' site:linkedin.com/in'']
   \<and> split_on CHR '' '' (''A'' @ [CHR 0x09] @ ''B M.'') = [''A'' @ [CHR 0x09] @ ''B'', ''M.'']
   \<and> split_ws (''A'' @ [CHR 0x09] @ ''B M.'') = [''A'', ''B'', ''M.'']
   \<and> \<not> is_truncated (''A'' @ [CHR 0x09] @ ''B M.'')
   \<and> build_queries (''A'' @ [CHR 0x09] @ ''B M.'') ''Lahore'' [] [] []
     = [quote ''A B M.'' @ '' freelancer Lahore site:linkedin.com/in'',
        quote ''A B M.'' @ '' Lahore site:linkedin.com/in'',
        quote ''A B M.'' @ '' site:linkedin.com/in'']"
  by code_simp

text \<open>
  C5, as the code has it. For a name that \<open>name.split()\<close> cuts into exactly two parts,
  at whitespace, whose second part has at most two characters and ends in a period,
  \<open>is_truncated\<close> holds and the first name is the first part. Every query of the block
  for truncated names is in the output and stands before every query on the full name
  (with location, with country, or alone). The unquoted first-name query is always among
  them; the queries on the quoted first name are among them when the location, after
  whitespace normalisation, is not empty.
\<close>

theorem truncated_queries_first:
  assumes "split_ws name = [a, b]" and "length b \<le> 2" and "endswith b ''.''"
  shows "is_truncated name
    \<and> first_name_from name = a
    \<and> set (truncated_stage a (normalize_whitespace location) (top_skill_of skills))
        \<subseteq> set (build_queries name location skills role country)
    \<and> all_before (truncated_stage a (normalize_whitespace location) (top_skill_of skills))
        (full_name_stage (quote (normalize_whitespace name)) (normalize_whitespace location)
           (normalize_whitespace role) (top_skill_of skills)
         @ fallback_stage (quote (normalize_whitespace name)) (normalize_whitespace location)
             (normalize_whitespace country))
        (build_queries name location skills role country)
    \<and> a @ '' freelancer '' @ normalize_whitespace location @ site
        \<in> set (build_queries name location skills role country)
    \<and> (normalize_whitespace location \<noteq> [] \<longrightarrow>
          quote a @ '' freelancer '' @ normalize_whitespace location @ site
            \<in> set (build_queries name location skills role country)
          \<and> quote a @ '' '' @ normalize_whitespace location @ site
            \<in> set (build_queries name location skills role country))
    \<and> set (truncated_stage_cse a (normalize_whitespace location) (top_skill_of skills))
        \<subseteq> set (build_cse_queries name location skills role country)
    \<and> all_before (truncated_stage_cse a (normalize_whitespace location) (top_skill_of skills))
        (full_name_stage (quote (normalize_whitespace name)) (normalize_whitespace location)
           (normalize_whitespace role) (top_skill_of skills)
         @ fallback_stage (quote (normalize_whitespace name)) (normalize_whitespace location)
             (normalize_whitespace country))
        (build_cse_queries name location skills role country)
    \<and> a @ '' freelancer '' @ normalize_whitespace location @ site
        \<in> set (build_cse_queries name location skills role country)
    \<and> (normalize_whitespace location \<noteq> [] \<longrightarrow>
          quote a @ '' freelancer '' @ normalize_whitespace location @ site
            \<in> set (build_cse_queries name location skills role country)
          \<and> quote a @ '' '' @ normalize_whitespace location @ site
            \<in> set (build_cse_queries name location skills role country))"
proof -
  let ?l = "normalize_whitespace location"
  let ?t = "top_skill_of skills"
  let ?nq = "quote (normalize_whitespace name)"
  let ?T = "truncated_stage a ?l ?t"
  let ?Tc = "truncated_stage_cse a ?l ?t"
  let ?F = "full_name_stage ?nq ?l (normalize_whitespace role) ?t"
  let ?L = "?F @ fallback_stage ?nq ?l (normalize_whitespace country)"
  let ?R = "(if ?l \<noteq> [] then ?F else []) @ fallback_stage ?nq ?l (normalize_whitespace country)"
  note f = truncated_name_facts [OF assms]
  have nq: "?nq = quote (a @ CHR '' '' # b)" using f by simp
  have dj: "set ?T \<inter> set ?L = {}"
    unfolding nq by (rule stages_disjoint)
  have djc: "set ?Tc \<inter> set ?L = {}"
    unfolding nq by (rule stages_disjoint_cse)
  have out: "build_queries name location skills role country = take 8 (dedup {} (?T @ ?R))"
    unfolding build_queries_def assemble_truncated [OF assms] ..
  have outc: "build_cse_queries name location skills role country = take 6 (dedup {} (?Tc @ ?R))"
    unfolding build_cse_queries_def assemble_cse_truncated [OF assms] ..
  have l8: "length ?T \<le> 8" using length_truncated_stage [of a ?l ?t] by simp
  have l6: "length ?Tc \<le> 6" using length_truncated_stage_cse [of a ?l ?t] by simp
  have p: "set ?T \<subseteq> set (build_queries name location skills role country)
           \<and> all_before ?T ?L (build_queries name location skills role country)"
    unfolding out by (rule stage_before [OF l8 dj])
  have pc: "set ?Tc \<subseteq> set (build_cse_queries name location skills role country)
           \<and> all_before ?Tc ?L (build_cse_queries name location skills role country)"
    unfolding outc by (rule stage_before [OF l6 djc])
  have u: "a @ '' freelancer '' @ ?l @ site \<in> set ?T"
    by (simp add: truncated_stage_def)
  have uc: "a @ '' freelancer '' @ ?l @ site \<in> set ?Tc"
    by (simp add: truncated_stage_cse_def)
  have q: "?l \<noteq> [] \<longrightarrow> quote a @ '' freelancer '' @ ?l @ site \<in> set ?T
                      \<and> quote a @ '' '' @ ?l @ site \<in> set ?T"
    by (simp add: truncated_stage_def)
  have qc: "?l \<noteq> [] \<longrightarrow> quote a @ '' freelancer '' @ ?l @ site \<in> set ?Tc
                      \<and> quote a @ '' '' @ ?l @ site \<in> set ?Tc"
    by (simp add: truncated_stage_cse_def)
  show ?thesis
    using f p pc u uc q qc by blast
qed

theorem truncated_queries_first_witness:
  "split_ws ''Amna M.'' = [''Amna'', ''M.''] \<and> length ''M.'' \<le> 2 \<and> endswith ''M.'' ''.''
   \<and> is_truncated ''Amna M.''
   \<and> first_name_from ''Amna M.'' = ''Amna''
   \<and> normalize_whitespace ''Lahore, Pakistan'' \<noteq> []
   \<and> quote ''Amna'' @ '' freelancer '' @ normalize_whitespace ''Lahore, Pakistan'' @ site
        \<in> set (build_queries ''Amna M.'' ''Lahore, Pakistan'' [''Market Research''] ''Analyst'' ''Pakistan'')
   \<and> all_before
        (truncated_stage ''Amna'' (normalize_whitespace ''Lahore, Pakistan'') (top_skill_of [''Market Research'']))
        (full_name_stage (quote (normalize_whitespace ''Amna M.'')) (normalize_whitespace ''Lahore, Pakistan'')
           (normalize_whitespace ''Analyst'') (top_skill_of [''Market Research''])
         @ fallback_stage (quote (normalize_whitespace ''Amna M.'')) (normalize_whitespace ''Lahore, Pakistan'')
             (normalize_whitespace ''Pakistan''))
        (build_queries ''Amna M.'' ''Lahore, Pakistan'' [''Market Research''] ''Analyst'' ''Pakistan'')
   \<and> build_queries ''Amna M.'' ''Lahore, Pakistan'' [''Market Research''] ''Analyst'' ''Pakistan'' ! 3
        \<in> set (truncated_stage ''Amna'' (normalize_whitespace ''Lahore, Pakistan'') (top_skill_of [''Market Research'']))
   \<and> build_queries ''Amna M.'' ''Lahore, Pakistan'' [''Market Research''] ''Analyst'' ''Pakistan'' ! 4
        \<in> set (full_name_stage (quote (normalize_whitespace ''Amna M.'')) (normalize_whitespace ''Lahore, Pakistan'')
           (normalize_whitespace ''Analyst'') (top_skill_of [''Market Research''])
         @ fallback_stage (quote (normalize_whitespace ''Amna M.'')) (normalize_whitespace ''Lahore, Pakistan'')
             (normalize_whitespace ''Pakistan''))
   \<and> length (build_queries ''Amna M.'' ''Lahore, Pakistan'' [''Market Research''] ''Analyst'' ''Pakistan'') = 8"
proof -
  have h1: "split_ws ''Amna M.'' = [''Amna'', ''M.'']" by code_simp
  have h2: "length ''M.'' \<le> 2" by simp
  have h3: "endswith ''M.'' ''.''" by code_simp
  have n: "normalize_whitespace ''Lahore, Pakistan'' \<noteq> []" by code_simp
  have i3: "build_queries ''Amna M.'' ''Lahore, Pakistan'' [''Market Research''] ''Analyst'' ''Pakistan'' ! 3
        \<in> set (truncated_stage ''Amna'' (normalize_whitespace ''Lahore, Pakistan'') (top_skill_of [''Market Research'']))"
    by code_simp
  have i4: "build_queries ''Amna M.'' ''Lahore, Pakistan'' [''Market Research''] ''Analyst'' ''Pakistan'' ! 4
        \<in> set (full_name_stage (quote (normalize_whitespace ''Amna M.'')) (normalize_whitespace ''Lahore, Pakistan'')
           (normalize_whitespace ''Analyst'') (top_skill_of [''Market Research''])
         @ fallback_stage (quote (normalize_whitespace ''Amna M.'')) (normalize_whitespace ''Lahore, Pakistan'')
             (normalize_whitespace ''Pakistan''))"
    by code_simp
  have l: "length (build_queries ''Amna M.'' ''Lahore, Pakistan'' [''Market Research''] ''Analyst'' ''Pakistan'') = 8"
    by code_simp
  show ?thesis
    using h1 h2 h3 n i3 i4 l
      truncated_queries_first [OF h1 h2 h3, of "''Lahore, Pakistan''" "[''Market Research'']"
        "''Analyst''" "''Pakistan''"]
    by blast
qed

end
